theory Spec2Isabelle
  imports Main
begin

section \<open>go-trace: following redirect chains\<close>

text \<open>
  A shallow embedding of the redirect tracer of \<^verbatim>\<open>go-trace.go\<close> and of its older
  sibling \<^verbatim>\<open>url-tracer.go\<close>: the functions \<^verbatim>\<open>makeCleanURL\<close>,
  \<^verbatim>\<open>handleRelativeRedirect\<close>, \<^verbatim>\<open>getStatusCodeClass\<close> and \<^verbatim>\<open>followRedirects\<close>.
  Go strings are byte strings, modelled as \<^typ>\<open>string\<close>. Go's \<^verbatim>\<open>int\<close> is modelled as
  \<^typ>\<open>int\<close>: the only arithmetic is the hop counter and the visit counter, which grow by
  one per request, so the 64-bit range is out of reach.
\<close>

subsection \<open>The functions of Go's \<^verbatim>\<open>strings\<close> package that the program calls\<close>

text \<open>\<^verbatim>\<open>strings.HasPrefix(s, prefix)\<close>.\<close>

definition strings_HasPrefix :: "string \<Rightarrow> string \<Rightarrow> bool" where
  "strings_HasPrefix s p = (take (length p) s = p)"

text \<open>\<^verbatim>\<open>strings.Contains(s, substr)\<close>: \<open>substr\<close> occurs at some position of \<open>s\<close>.\<close>

fun strings_Contains :: "string \<Rightarrow> string \<Rightarrow> bool" where
  "strings_Contains [] sub = (sub = [])"
| "strings_Contains (c # cs) sub =
     (strings_HasPrefix (c # cs) sub \<or> strings_Contains cs sub)"

text \<open>
  \<^verbatim>\<open>strings.Split(s, sep)\<close> for a non-empty separator: the pieces of \<open>s\<close> between the
  occurrences of \<open>sep\<close>, found from left to right without overlap. \<open>acc\<close> is the piece
  being read. (With an empty separator Go splits after every UTF-8 sequence; the
  program only ever splits on \<^verbatim>\<open>"?"\<close>.)
\<close>

function strings_Split_acc :: "string \<Rightarrow> string \<Rightarrow> string \<Rightarrow> string list" where
  "strings_Split_acc acc [] sep = [acc]"
| "strings_Split_acc acc (c # cs) sep =
     (if sep \<noteq> [] \<and> strings_HasPrefix (c # cs) sep
      then acc # strings_Split_acc [] (drop (length sep) (c # cs)) sep
      else strings_Split_acc (acc @ [c]) cs sep)"
  by pat_completeness auto
termination
  by (relation "measure (\<lambda>(acc, s, sep). length s)") auto

definition strings_Split :: "string \<Rightarrow> string \<Rightarrow> string list" where
  "strings_Split s sep = strings_Split_acc [] s sep"

text \<open>
  \<^verbatim>\<open>strings.ReplaceAll(s, old, new)\<close> for a non-empty \<open>old\<close>: every non-overlapping
  occurrence of \<open>old\<close>, from left to right, is replaced by \<open>new\<close>.
\<close>

function strings_ReplaceAll :: "string \<Rightarrow> string \<Rightarrow> string \<Rightarrow> string" where
  "strings_ReplaceAll [] old new = []"
| "strings_ReplaceAll (c # cs) old new =
     (if old \<noteq> [] \<and> strings_HasPrefix (c # cs) old
      then new @ strings_ReplaceAll (drop (length old) (c # cs)) old new
      else c # strings_ReplaceAll cs old new)"
  by pat_completeness auto
termination
  by (relation "measure (\<lambda>(s, old, new). length s)") auto

subsection \<open>\<^verbatim>\<open>makeCleanURL\<close> (go-trace.go, lines 171-180)\<close>

text \<open>
  \<^verbatim>\<open>
  func makeCleanURL(url string) string {
      parts := strings.Split(url, "?")
      if len(parts) > 1 { return parts[0] } else { return url }
  }
  \<close>
  \<^verbatim>\<open>strings.Split\<close> never returns an empty slice for a non-empty separator, so
  \<^verbatim>\<open>parts[0]\<close> exists whenever it is read; the model makes the empty case return the
  input, as the \<^verbatim>\<open>else\<close> branch does.
\<close>

definition makeCleanURL :: "string \<Rightarrow> string" where
  "makeCleanURL url =
     (let parts = strings_Split url ''?''
      in if length parts > 1 then (case parts of p # _ \<Rightarrow> p | [] \<Rightarrow> url) else url)"

subsection \<open>Data: URLs, requests, responses, errors\<close>

text \<open>
  The fields of Go's \<^verbatim>\<open>url.URL\<close>. \<^verbatim>\<open>*url.URL\<close> is a pointer that may be nil, modelled
  as \<^typ>\<open>'a option\<close>.
\<close>

record Userinfo =
  username :: string
  password :: string
  passwordSet :: bool

record URL =
  Scheme :: string
  Opaque :: string
  User :: "Userinfo option"
  Host :: string
  Path :: string
  RawPath :: string
  OmitHost :: bool
  ForceQuery :: bool
  RawQuery :: string
  Fragment :: string
  RawFragment :: string

text \<open>
  Go's \<^verbatim>\<open>error\<close> values. An error made by the standard library carries its message
  (\<^verbatim>\<open>err.Error()\<close>) and whether it is a \<^verbatim>\<open>*url.Error\<close> whose \<^verbatim>\<open>Timeout()\<close> holds;
  \<^verbatim>\<open>errors.New(msg)\<close> and \<^verbatim>\<open>fmt.Errorf(prefix + "%s", err)\<close> are the two ways the
  program makes errors of its own.
\<close>

datatype error =
    LibraryError bool string
  | errors_New string
  | fmt_Errorf string error

fun isURLTimeout :: "error \<Rightarrow> bool" where
  "isURLTimeout (LibraryError t msg) = t"
| "isURLTimeout (errors_New msg) = False"
| "isURLTimeout (fmt_Errorf prefix err) = False"

fun Error :: "error \<Rightarrow> string" where
  "Error (LibraryError t msg) = msg"
| "Error (errors_New msg) = msg"
| "Error (fmt_Errorf prefix err) = prefix @ Error err"

text \<open>
  \<open>wrapped e ps\<close>: the error \<open>e\<close> was made by \<^verbatim>\<open>fmt.Errorf\<close> with one of the prefixes
  \<open>ps\<close>.
\<close>

definition wrapped :: "error \<Rightarrow> string list \<Rightarrow> bool" where
  "wrapped e ps = (case e of fmt_Errorf p e0 \<Rightarrow> p \<in> set ps | _ \<Rightarrow> False)"

text \<open>
  An \<^verbatim>\<open>http.Header\<close> maps a key to its values; \<^verbatim>\<open>Get\<close> returns the first value, or the
  empty string when there is none, and \<^verbatim>\<open>Set\<close> replaces the values of a key. (The keys
  the program uses are in canonical form already.)
\<close>

type_synonym Header = "string \<rightharpoonup> string list"

definition Header_Get :: "Header \<Rightarrow> string \<Rightarrow> string" where
  "Header_Get h key = (case h key of None \<Rightarrow> [] | Some [] \<Rightarrow> [] | Some (v # _) \<Rightarrow> v)"

definition Header_Set :: "Header \<Rightarrow> string \<Rightarrow> string \<Rightarrow> Header" where
  "Header_Set h key v = h(key \<mapsto> [v])"

record Request =
  req_Method :: string
  req_URL :: URL
  req_Header :: Header

record Response =
  resp_StatusCode :: int
  resp_Header :: Header

text \<open>
  A hop. In \<^verbatim>\<open>go-trace.go\<close> the struct has the three fields below; in \<^verbatim>\<open>url-tracer.go\<close> it
  has a fourth, \<^verbatim>\<open>StatusCodeClass\<close>, always set to \<^verbatim>\<open>getStatusCodeClass\<close> of the status
  code. Both programs build every hop from a number, a URL and a status code, so one
  constructor \<open>mkHop\<close> serves both: \<open>ext\<close> computes the fields beyond the first three
  from the status code.
\<close>

record Hop =
  Number :: int
  URL :: string
  StatusCode :: int

record HopClass = Hop +
  StatusCodeClass :: string

definition getStatusCodeClass :: "int \<Rightarrow> string" where
  "getStatusCodeClass statusCode =
     (if statusCode \<ge> 200 \<and> statusCode < 300 then ''2xx''
      else if statusCode \<ge> 300 \<and> statusCode < 400 then ''3xx''
      else if statusCode \<ge> 400 \<and> statusCode < 500 then ''4xx''
      else if statusCode \<ge> 500 \<and> statusCode < 600 then ''5xx''
      else [])"

definition mkHop :: "(int \<Rightarrow> 'a) \<Rightarrow> int \<Rightarrow> string \<Rightarrow> int \<Rightarrow> 'a Hop_scheme" where
  "mkHop ext n u c = \<lparr>Number = n, URL = u, StatusCode = c, \<dots> = ext c\<rparr>"

text \<open>The hops of \<^verbatim>\<open>go-trace.go\<close>: nothing beyond the three fields.\<close>

definition go_trace :: "int \<Rightarrow> unit" where
  "go_trace c = ()"

text \<open>The hops of \<^verbatim>\<open>url-tracer.go\<close>: the status class as well.\<close>

definition url_tracer :: "int \<Rightarrow> unit HopClass_ext" where
  "url_tracer c = HopClass.fields (getStatusCodeClass c)"

definition StatusOK :: int where
  "StatusOK = 200"

definition StatusLoopDetected :: int where
  "StatusLoopDetected = 508"

subsection \<open>The standard library and the network, as parameters\<close>

text \<open>
  The program calls \<^verbatim>\<open>net/url\<close> and \<^verbatim>\<open>net/http\<close>, which are not part of the repository.
  They are parameters of the model, so that every theorem below holds whatever these
  functions compute:
  \<^item> \<open>url_Parse\<close> is \<^verbatim>\<open>url.Parse\<close>;
  \<^item> \<open>URL_String\<close> is the method \<^verbatim>\<open>(*URL).String\<close>;
  \<^item> \<open>Query_Get u key\<close> is \<^verbatim>\<open>u.Query().Get(key)\<close>;
  \<^item> \<open>url_PathUnescape\<close> is \<^verbatim>\<open>url.PathUnescape\<close>;
  \<^item> \<open>http_NewRequest\<close> is \<^verbatim>\<open>http.NewRequest\<close> with a nil body;
  \<^item> \<open>client_Do\<close> is \<^verbatim>\<open>client.Do\<close>, the network. A server may answer the same request
    differently the second time, so \<open>client_Do\<close> also takes the position of the
    request in the resolution: the first request, the second, and so on. The program's
    counter \<^verbatim>\<open>number\<close> is that position (it starts at 1 and grows by one on the way to
    each further request).
\<close>

record golib =
  url_Parse :: "string \<Rightarrow> error + URL"
  URL_String :: "URL \<Rightarrow> string"
  Query_Get :: "URL \<Rightarrow> string \<Rightarrow> string"
  url_PathUnescape :: "string \<Rightarrow> error + string"
  http_NewRequest :: "string \<Rightarrow> string \<Rightarrow> error + Request"
  client_Do :: "int \<Rightarrow> Request \<Rightarrow> error + Response"

subsection \<open>\<^verbatim>\<open>handleRelativeRedirect\<close> (go-trace.go, lines 408-438; url-tracer.go, lines 229-259)\<close>

text \<open>
  The URL parsed from \<open>location\<close> is a fresh value; the function fills in its scheme,
  then its host. (\<^verbatim>\<open>log.Printf\<close> on a parse error writes to the log and is left out.)
\<close>

definition handleRelativeRedirect ::
    "golib \<Rightarrow> URL option \<Rightarrow> string \<Rightarrow> URL option \<Rightarrow> error + URL" where
  "handleRelativeRedirect lib previousURL location requestURL =
     (case url_Parse lib location of
        Inl err \<Rightarrow> Inl err
      | Inr redirectURL \<Rightarrow>
          (case (if Scheme redirectURL = [] then
                   (case previousURL of
                      Some p \<Rightarrow> Inr (redirectURL\<lparr>Scheme := Scheme p\<rparr>)
                    | None \<Rightarrow>
                        (case requestURL of
                           Some r \<Rightarrow> Inr (redirectURL\<lparr>Scheme := Scheme r\<rparr>)
                         | None \<Rightarrow> Inl (errors_New ''missing scheme for relative redirect'')))
                 else Inr redirectURL) of
             Inl err \<Rightarrow> Inl err
           | Inr redirectURL \<Rightarrow>
               (if Host redirectURL = [] then
                  (case previousURL of
                     Some p \<Rightarrow> Inr (redirectURL\<lparr>Host := Host p\<rparr>)
                   | None \<Rightarrow>
                       (case requestURL of
                          Some r \<Rightarrow> Inr (redirectURL\<lparr>Host := Host r\<rparr>)
                        | None \<Rightarrow> Inl (errors_New ''missing host for relative redirect'')))
                else Inr redirectURL)))"

text \<open>The two failures of the resolver that are its own.\<close>

definition MissingScheme :: error where
  "MissingScheme = errors_New ''missing scheme for relative redirect''"

definition MissingHost :: error where
  "MissingHost = errors_New ''missing host for relative redirect''"

subsection \<open>\<^verbatim>\<open>followRedirects\<close> (go-trace.go, lines 269-406; url-tracer.go, lines 72-213)\<close>

text \<open>
  The two blocks that look for the query parameters \<^verbatim>\<open>returnUri\<close> and \<^verbatim>\<open>redir\<close>
  (go-trace.go, lines 371-392; url-tracer.go, lines 177-198). \<open>u\<close> is the parsed redirect
  URL and \<open>redirectURLString\<close> its text; the result is the new value of
  \<^verbatim>\<open>redirectURLString\<close>. The second block is a plain \<^verbatim>\<open>if\<close> after the first, not an
  \<^verbatim>\<open>else\<close>: it runs whatever the first did.
\<close>

definition unwrapParameters :: "golib \<Rightarrow> URL \<Rightarrow> string \<Rightarrow> error + string" where
  "unwrapParameters lib u redirectURLString =
     (case (let returnURI = Query_Get lib u ''returnUri'' in
            if returnURI \<noteq> [] then
              (case url_PathUnescape lib returnURI of
                 Inl err \<Rightarrow> Inl (fmt_Errorf ''error decoding returnUri: '' err)
               | Inr decodedReturnURI \<Rightarrow>
                   (let decodedReturnURI = strings_ReplaceAll decodedReturnURI ''%3A'' '':'';
                        decodedReturnURI = strings_ReplaceAll decodedReturnURI ''%2F'' ''/''
                    in Inr (Scheme u @ ''://'' @ Host u @ Path u @ ''?returnUri='' @ decodedReturnURI)))
            else Inr redirectURLString) of
        Inl err \<Rightarrow> Inl err
      | Inr redirectURLString \<Rightarrow>
          (let redirURI = Query_Get lib u ''redir'' in
           if redirURI \<noteq> [] then
             (case url_PathUnescape lib redirURI of
                Inl err \<Rightarrow> Inl (fmt_Errorf ''error decoding redir param: '' err)
              | Inr decodedRedirURI \<Rightarrow>
                  (let decodedRedirURI = strings_ReplaceAll decodedRedirURI ''%3A'' '':'';
                       decodedRedirURI = strings_ReplaceAll decodedRedirURI ''%2F'' ''/''
                   in Inr (Scheme u @ ''://'' @ Host u @ Path u @ ''?redir='' @ decodedRedirURI)))
           else Inr redirectURLString))"

text \<open>
  From a \<^verbatim>\<open>Location\<close> to the next URL (go-trace.go, lines 358-400; url-tracer.go, lines
  164-206): resolve the location, turn the result into a string, parse that string,
  unwrap the parameters, and parse the result once more for the next \<^verbatim>\<open>previousURL\<close>. The result is the new
  \<^verbatim>\<open>urlStr\<close> and the new \<^verbatim>\<open>previousURL\<close>, or the error \<^verbatim>\<open>followRedirects\<close> returns.
\<close>

definition nextURL :: "golib \<Rightarrow> URL option \<Rightarrow> string \<Rightarrow> URL \<Rightarrow> error + (string \<times> URL)" where
  "nextURL lib previousURL location requestURL =
     (case handleRelativeRedirect lib previousURL location (Some requestURL) of
        Inl err \<Rightarrow> Inl (fmt_Errorf ''error handling relative redirect: '' err)
      | Inr redirectURL \<Rightarrow>
          (let redirectURLString = URL_String lib redirectURL in
           case url_Parse lib redirectURLString of
             Inl err \<Rightarrow> Inl (fmt_Errorf ''error parsing URL: '' err)
           | Inr u \<Rightarrow>
               (case unwrapParameters lib u redirectURLString of
                  Inl err \<Rightarrow> Inl err
                | Inr redirectURLString \<Rightarrow>
                    (case url_Parse lib redirectURLString of
                       Inl err \<Rightarrow> Inl (fmt_Errorf ''error parsing URL: '' err)
                     | Inr p \<Rightarrow> Inr (redirectURLString, p)))))"

text \<open>
  The local variables of \<^verbatim>\<open>followRedirects\<close> that live across iterations of its
  \<^verbatim>\<open>for\<close> loop. \<^verbatim>\<open>visitedURLs\<close> is a Go map: reading a missing key gives 0.
\<close>

record 'a state =
  urlStr :: string
  hops :: "'a Hop_scheme list"
  number :: int
  previousURL :: "URL option"
  visitedURLs :: "string \<rightharpoonup> int"
  cloudflareStatus :: bool

definition visits :: "(string \<rightharpoonup> int) \<Rightarrow> string \<Rightarrow> int" where
  "visits m k = (case m k of None \<Rightarrow> 0 | Some n \<Rightarrow> n)"

text \<open>
  What a call of \<^verbatim>\<open>followRedirects\<close> ends with: either it returns its four results (the
  final URL, the hops, where \<open>None\<close> is Go's nil slice, the Cloudflare flag, and the
  error, where \<open>None\<close> is nil), or the process ends inside \<^verbatim>\<open>doTimeout\<close> or
  \<^verbatim>\<open>doValidationError\<close>, which print a line and call \<^verbatim>\<open>os.Exit(1)\<close>.
\<close>

datatype 'a outcome =
    Return string "'a Hop_scheme list option" bool "error option"
  | Exit string int

definition doTimeout :: "'a outcome" where
  "doTimeout = Exit ''Timeout error'' 1"

definition doValidationError :: "'a outcome" where
  "doValidationError = Exit ''Validation error'' 1"

definition userAgent :: string where
  "userAgent = ''Mozilla/5.0 (Windows NT 10.0; Win64; x64) AppleWebKit/537.36 (KHTML, like Gecko) Chrome/91.0.4472.124 Safari/537.36''"

text \<open>\<^verbatim>\<open>req.Header.Set("User-Agent", ...)\<close>.\<close>

definition setUserAgent :: "Request \<Rightarrow> Request" where
  "setUserAgent req = req\<lparr>req_Header := Header_Set (req_Header req) ''User-Agent'' userAgent\<rparr>"

text \<open>
  The branch for a status code from 300 to 399 (go-trace.go, lines 338-402). \<open>s\<close> is the
  state after the hop of this response has been appended. \<open>Inl\<close> is a \<^verbatim>\<open>return\<close>,
  \<open>Inr\<close> is the \<^verbatim>\<open>continue\<close> with the state of the next iteration.
\<close>

definition redirect :: "(int \<Rightarrow> 'a) \<Rightarrow> golib \<Rightarrow> 'a state \<Rightarrow> Request \<Rightarrow> Response
    \<Rightarrow> 'a outcome + 'a state" where
  "redirect ext lib s req resp =
     (let location = Header_Get (resp_Header resp) ''Location'' in
      if location = [] then
        (let s = (if strings_Contains (Header_Get (resp_Header resp) ''Server'') ''cloudflare''
                  then s\<lparr>cloudflareStatus := True\<rparr> else s)
         in Inl (Return [] (Some []) (cloudflareStatus s) None))
      else if strings_HasPrefix location ''https://outlook.office365.com'' then
        (let finalHop = mkHop ext (number s + 2) location StatusOK;
             s = s\<lparr>hops := hops s @ [finalHop]\<rparr>
         in Inl (Return location (Some (hops s)) (cloudflareStatus s) None))
      else
        (case nextURL lib (previousURL s) location (req_URL req) of
           Inl err \<Rightarrow> Inl (Return [] None (cloudflareStatus s) (Some err))
         | Inr (redirectURLString, p) \<Rightarrow>
             Inr (s\<lparr>urlStr := redirectURLString,
                     number := number s + 1,
                     previousURL := Some p\<rparr>)))"

text \<open>
  One pass through the body of the \<^verbatim>\<open>for\<close> loop (go-trace.go, lines 285-404). Closing
  the response body is left out: no result depends on it.
\<close>

definition iteration :: "(int \<Rightarrow> 'a) \<Rightarrow> golib \<Rightarrow> 'a state \<Rightarrow> 'a outcome + 'a state" where
  "iteration ext lib s =
     (if visits (visitedURLs s) (urlStr s) > 1 then
        (let s = s\<lparr>hops := hops s @ [mkHop ext (number s) (urlStr s) StatusLoopDetected]\<rparr>
         in Inl (Return (urlStr s) (Some (hops s)) (cloudflareStatus s) None))
      else
        (let s = s\<lparr>visitedURLs :=
                     (visitedURLs s)(urlStr s \<mapsto> visits (visitedURLs s) (urlStr s) + 1)\<rparr>
         in case http_NewRequest lib ''GET'' (urlStr s) of
              Inl err \<Rightarrow>
                Inl (Return [] None (cloudflareStatus s)
                       (Some (fmt_Errorf ''error creating request: '' err)))
            | Inr req \<Rightarrow>
                (let req = setUserAgent req
                 in case client_Do lib (number s) req of
                      Inl err \<Rightarrow>
                        (if isURLTimeout err then Inl doTimeout
                         else if strings_Contains (Error err)
                                   ''x509: certificate signed by unknown authority''
                         then Inl doValidationError
                         else Inl (Return [] None (cloudflareStatus s)
                                     (Some (fmt_Errorf ''error accessing URL: '' err))))
                    | Inr resp \<Rightarrow>
                        (let hop = mkHop ext (number s) (urlStr s) (resp_StatusCode resp);
                             s = s\<lparr>hops := hops s @ [hop]\<rparr>
                         in if resp_StatusCode resp \<ge> 300 \<and> resp_StatusCode resp \<le> 399
                            then redirect ext lib s req resp
                            else Inl (Return (urlStr s) (Some (hops s))
                                        (cloudflareStatus s) None)))))"

text \<open>
  The \<^verbatim>\<open>for\<close> loop. It has no bound: a server can answer every request with a redirect
  to a URL not seen before, and then \<^verbatim>\<open>followRedirects\<close> never returns. So the result is
  an option, \<open>None\<close> when the loop runs forever.
\<close>

partial_function (option) followRedirects_loop ::
    "(int \<Rightarrow> 'a) \<Rightarrow> golib \<Rightarrow> 'a state \<Rightarrow> 'a outcome option" where
  "followRedirects_loop ext lib s =
     (case iteration ext lib s of
        Inl result \<Rightarrow> Some result
      | Inr s' \<Rightarrow> followRedirects_loop ext lib s')"

text \<open>The state in which \<^verbatim>\<open>followRedirects(urlStr)\<close> enters its loop.\<close>

definition initial :: "string \<Rightarrow> 'a state" where
  "initial url =
     \<lparr>urlStr = url, hops = [], number = 1, previousURL = None,
      visitedURLs = Map.empty(url \<mapsto> 1), cloudflareStatus = False\<rparr>"

definition followRedirects :: "(int \<Rightarrow> 'a) \<Rightarrow> golib \<Rightarrow> string \<Rightarrow> 'a outcome option" where
  "followRedirects ext lib url = followRedirects_loop ext lib (initial url)"

declare followRedirects_loop.simps [code]

subsection \<open>Redirect chains\<close>

text \<open>
  \<open>redirect_chain lib n prev us codes\<close> says that the URLs \<open>us\<close> form a redirect chain
  for the program, when the request for the first of them is request number \<open>n\<close> of the
  resolution and \<open>prev\<close> is the previous URL at that moment: each request can be built
  and is answered, with the status codes \<open>codes\<close>; every answer but the last is a
  redirect (300 to 399) whose \<^verbatim>\<open>Location\<close> is there, does not begin with the Outlook
  prefix, and leads the program (\<open>nextURL\<close>) to the next URL of the chain; the last
  answer is not a redirect.
\<close>

fun redirect_chain :: "golib \<Rightarrow> int \<Rightarrow> URL option \<Rightarrow> string list \<Rightarrow> int list \<Rightarrow> bool" where
  "redirect_chain lib n prev [] codes = False"
| "redirect_chain lib n prev (u # us) [] = False"
| "redirect_chain lib n prev (u # us) (c # cs) =
     (case http_NewRequest lib ''GET'' u of
        Inl err \<Rightarrow> False
      | Inr req \<Rightarrow>
          (case client_Do lib n (setUserAgent req) of
             Inl err \<Rightarrow> False
           | Inr resp \<Rightarrow>
               c = resp_StatusCode resp \<and>
               (case us of
                  [] \<Rightarrow> cs = [] \<and> \<not> (c \<ge> 300 \<and> c \<le> 399)
                | v # vs \<Rightarrow>
                    c \<ge> 300 \<and> c \<le> 399 \<and>
                    Header_Get (resp_Header resp) ''Location'' \<noteq> [] \<and>
                    \<not> strings_HasPrefix (Header_Get (resp_Header resp) ''Location'')
                         ''https://outlook.office365.com'' \<and>
                    (case nextURL lib prev (Header_Get (resp_Header resp) ''Location'') (req_URL req) of
                       Inl err \<Rightarrow> False
                     | Inr (w, p) \<Rightarrow> w = v \<and> redirect_chain lib (n + 1) (Some p) us cs))))"

text \<open>The hops numbered from \<open>n\<close> for the URLs \<open>us\<close> and the status codes \<open>codes\<close>.\<close>

fun ledger :: "(int \<Rightarrow> 'a) \<Rightarrow> int \<Rightarrow> string list \<Rightarrow> int list \<Rightarrow> 'a Hop_scheme list" where
  "ledger ext n (u # us) (c # cs) = mkHop ext n u c # ledger ext (n + 1) us cs"
| "ledger ext n us codes = []"

subsection \<open>A model of the library on plain URLs, for running the program\<close>

text \<open>
  The theorems below hold for every library. To run the program on concrete inputs, the
  functions that follow compute what \<^verbatim>\<open>net/url\<close> (Go 1.19 and later) computes on plain URLs: a
  scheme, a host of letters, digits, \<^verbatim>\<open>-._~\<close> and an optional numeric port, a path of
  unreserved characters and \<^verbatim>\<open>/$&+,:;=@\<close>, any query, and a fragment of the same characters
  as the path. On anything else (user information, IPv6 literals, percent-escapes outside
  the query, characters that Go would escape) \<open>go_url_Parse\<close> answers with the error
  \<open>unsupported\<close>, so that no result is claimed where the model does not follow Go.
\<close>

definition isalpha :: "char \<Rightarrow> bool" where
  "isalpha c = (let n = (of_char c :: nat) in (97 \<le> n \<and> n \<le> 122) \<or> (65 \<le> n \<and> n \<le> 90))"

definition isdigit :: "char \<Rightarrow> bool" where
  "isdigit c = (let n = (of_char c :: nat) in 48 \<le> n \<and> n \<le> 57)"

definition ishex :: "char \<Rightarrow> bool" where
  "ishex c = (let n = (of_char c :: nat)
              in (48 \<le> n \<and> n \<le> 57) \<or> (97 \<le> n \<and> n \<le> 102) \<or> (65 \<le> n \<and> n \<le> 70))"

definition unhex :: "char \<Rightarrow> nat" where
  "unhex c = (let n = (of_char c :: nat)
              in if 48 \<le> n \<and> n \<le> 57 then n - 48
                 else if 97 \<le> n \<and> n \<le> 102 then n - 97 + 10
                 else if 65 \<le> n \<and> n \<le> 70 then n - 65 + 10
                 else 0)"

definition toLower :: "char \<Rightarrow> char" where
  "toLower c = (let n = (of_char c :: nat) in if 65 \<le> n \<and> n \<le> 90 then char_of (n + 32) else c)"

definition unreserved :: "char \<Rightarrow> bool" where
  "unreserved c = (isalpha c \<or> isdigit c \<or> c \<in> set ''-_.~'')"

definition unsupported :: error where
  "unsupported = LibraryError False ''outside the model of net/url''"

text \<open>
  \<^verbatim>\<open>unescape\<close> of \<^verbatim>\<open>net/url\<close>: \<^verbatim>\<open>%XX\<close> becomes the byte \<^verbatim>\<open>XX\<close>; a \<^verbatim>\<open>%\<close> not followed by
  two hexadecimal digits is an error; \<^verbatim>\<open>+\<close> becomes a space in a query component
  (\<open>query\<close>) and stays in a path segment.
\<close>

fun unescape :: "bool \<Rightarrow> string \<Rightarrow> error + string" where
  "unescape query [] = Inr []"
| "unescape query (c # cs) =
     (if c = CHR ''%'' then
        (case cs of
           h1 # h2 # rest \<Rightarrow>
             (if ishex h1 \<and> ishex h2 then
                (case unescape query rest of
                   Inl err \<Rightarrow> Inl err
                 | Inr t \<Rightarrow> Inr (char_of (16 * unhex h1 + unhex h2) # t))
              else Inl (LibraryError False ''invalid URL escape''))
         | _ \<Rightarrow> Inl (LibraryError False ''invalid URL escape''))
      else
        (case unescape query cs of
           Inl err \<Rightarrow> Inl err
         | Inr t \<Rightarrow> Inr ((if query \<and> c = CHR ''+'' then CHR '' '' else c) # t)))"

definition go_PathUnescape :: "string \<Rightarrow> error + string" where
  "go_PathUnescape s = unescape False s"

definition go_QueryUnescape :: "string \<Rightarrow> error + string" where
  "go_QueryUnescape s = unescape True s"

text \<open>
  \<^verbatim>\<open>u.Query()\<close> parses \<^verbatim>\<open>u.RawQuery\<close> and drops the pairs it cannot parse: the pieces
  between \<^verbatim>\<open>&\<close>, each cut at its first \<^verbatim>\<open>=\<close>, key and value unescaped. \<^verbatim>\<open>Get\<close> returns
  the first value of a key, or the empty string.
\<close>

definition parsePair :: "string \<Rightarrow> (string \<times> string) option" where
  "parsePair piece =
     (if strings_Contains piece '';'' \<or> piece = [] then None
      else
        (let key = takeWhile (\<lambda>c. c \<noteq> CHR ''='') piece;
             val = drop 1 (dropWhile (\<lambda>c. c \<noteq> CHR ''='') piece)
         in case go_QueryUnescape key of
              Inl err \<Rightarrow> None
            | Inr key \<Rightarrow>
                (case go_QueryUnescape val of
                   Inl err \<Rightarrow> None
                 | Inr val \<Rightarrow> Some (key, val))))"

definition go_Query_Get :: "URL \<Rightarrow> string \<Rightarrow> string" where
  "go_Query_Get u key =
     (case map_of (List.map_filter parsePair (strings_Split (RawQuery u) ''&'')) key of
        None \<Rightarrow> []
      | Some v \<Rightarrow> v)"

text \<open>\<^verbatim>\<open>getScheme\<close> of \<^verbatim>\<open>net/url\<close>; \<open>acc\<close> is the part of \<open>rawURL\<close> already read.\<close>

fun getScheme :: "string \<Rightarrow> string \<Rightarrow> string \<Rightarrow> error + (string \<times> string)" where
  "getScheme rawURL acc [] = Inr ([], rawURL)"
| "getScheme rawURL acc (c # cs) =
     (if isalpha c then getScheme rawURL (acc @ [c]) cs
      else if isdigit c \<or> c \<in> set ''+-.'' then
        (if acc = [] then Inr ([], rawURL) else getScheme rawURL (acc @ [c]) cs)
      else if c = CHR '':'' then
        (if acc = [] then Inl (LibraryError False ''missing protocol scheme'')
         else Inr (acc, cs))
      else Inr ([], rawURL))"

definition emptyURL :: URL where
  "emptyURL = \<lparr>Scheme = [], Opaque = [], User = None, Host = [], Path = [], RawPath = [],
     OmitHost = False, ForceQuery = False, RawQuery = [], Fragment = [], RawFragment = []\<rparr>"

definition plainHost :: "string \<Rightarrow> bool" where
  "plainHost h =
     (let name = takeWhile (\<lambda>c. c \<noteq> CHR '':'') h;
          port = drop 1 (dropWhile (\<lambda>c. c \<noteq> CHR '':'') h)
      in list_all unreserved name \<and> list_all isdigit port)"

definition plainPath :: "string \<Rightarrow> bool" where
  "plainPath p = list_all (\<lambda>c. unreserved c \<or> c \<in> set ''/$&+,:;=@'') p"

text \<open>
  \<^verbatim>\<open>url.Parse\<close>: cut the fragment off at the first \<^verbatim>\<open>#\<close>, refuse control bytes, read the
  scheme, cut the query off at the first \<^verbatim>\<open>?\<close>, then the authority after \<^verbatim>\<open>//\<close>, then the
  path.
\<close>

definition go_parse :: "string \<Rightarrow> error + URL" where
  "go_parse rawURL =
     (if list_ex (\<lambda>c. (of_char c :: nat) < 32 \<or> (of_char c :: nat) = 127) rawURL then
        Inl (LibraryError False ''net/url: invalid control character in URL'')
      else if rawURL = ''*'' then Inr (emptyURL\<lparr>Path := ''*''\<rparr>)
      else
        (case getScheme rawURL [] rawURL of
           Inl err \<Rightarrow> Inl err
         | Inr (scheme, rest) \<Rightarrow>
             (let url = emptyURL\<lparr>Scheme := map toLower scheme\<rparr>;
                  force = (rest \<noteq> [] \<and> last rest = CHR ''?'' \<and> count_list rest (CHR ''?'') = 1);
                  url = (if force then url\<lparr>ForceQuery := True\<rparr>
                         else url\<lparr>RawQuery := drop 1 (dropWhile (\<lambda>c. c \<noteq> CHR ''?'') rest)\<rparr>);
                  rest = (if force then butlast rest else takeWhile (\<lambda>c. c \<noteq> CHR ''?'') rest)
              in if \<not> strings_HasPrefix rest ''/'' \<and> Scheme url \<noteq> [] then
                   Inr (url\<lparr>Opaque := rest\<rparr>)
                 else if \<not> strings_HasPrefix rest ''/''
                         \<and> CHR '':'' \<in> set (takeWhile (\<lambda>c. c \<noteq> CHR ''/'') rest) then
                   Inl (LibraryError False ''first path segment in URL cannot contain colon'')
                 else if (Scheme url \<noteq> [] \<or> \<not> strings_HasPrefix rest ''///'')
                         \<and> strings_HasPrefix rest ''//'' then
                   (let authority = takeWhile (\<lambda>c. c \<noteq> CHR ''/'') (drop 2 rest);
                        rest = dropWhile (\<lambda>c. c \<noteq> CHR ''/'') (drop 2 rest)
                    in if plainHost authority \<and> plainPath rest
                       then Inr (url\<lparr>Host := authority, Path := rest\<rparr>)
                       else Inl unsupported)
                 else if plainPath rest then
                   Inr (url\<lparr>OmitHost := (Scheme url \<noteq> [] \<and> strings_HasPrefix rest ''/''),
                            Path := rest\<rparr>)
                 else Inl unsupported)))"

definition go_url_Parse :: "string \<Rightarrow> error + URL" where
  "go_url_Parse rawURL =
     (let u = takeWhile (\<lambda>c. c \<noteq> CHR ''#'') rawURL;
          frag = drop 1 (dropWhile (\<lambda>c. c \<noteq> CHR ''#'') rawURL)
      in case go_parse u of
           Inl err \<Rightarrow> Inl err
         | Inr url \<Rightarrow>
             (if frag = [] then Inr url
              else if plainPath frag then Inr (url\<lparr>Fragment := frag\<rparr>)
              else Inl unsupported))"

text \<open>
  \<^verbatim>\<open>(*URL).String\<close>, without the percent-escaping of host, path and fragment, which
  changes nothing in a plain URL.
\<close>

definition go_URL_String :: "URL \<Rightarrow> string" where
  "go_URL_String u =
     (let buf = (if Scheme u \<noteq> [] then Scheme u @ '':'' else []);
          buf =
            (if Opaque u \<noteq> [] then buf @ Opaque u
             else
               (let buf =
                      (if Scheme u \<noteq> [] \<or> Host u \<noteq> [] \<or> User u \<noteq> None then
                         (if OmitHost u \<and> Host u = [] \<and> User u = None then buf
                          else
                            (let buf = (if Host u \<noteq> [] \<or> Path u \<noteq> [] \<or> User u \<noteq> None
                                        then buf @ ''//'' else buf);
                                 buf = (case User u of
                                          None \<Rightarrow> buf
                                        | Some ui \<Rightarrow>
                                            buf @ username ui
                                            @ (if passwordSet ui then '':'' @ password ui else [])
                                            @ ''@'')
                             in buf @ Host u))
                       else buf);
                    buf = (if Path u \<noteq> [] \<and> hd (Path u) \<noteq> CHR ''/'' \<and> Host u \<noteq> []
                           then buf @ ''/'' else buf);
                    buf = (if buf = [] \<and> CHR '':'' \<in> set (takeWhile (\<lambda>c. c \<noteq> CHR ''/'') (Path u))
                           then buf @ ''./'' else buf)
                in buf @ Path u));
          buf = (if ForceQuery u \<or> RawQuery u \<noteq> [] then buf @ ''?'' @ RawQuery u else buf);
          buf = (if Fragment u \<noteq> [] then buf @ ''#'' @ Fragment u else buf)
      in buf)"

text \<open>
  \<^verbatim>\<open>http.NewRequest(method, url, nil)\<close> parses the URL and removes an empty port from its
  host; the request starts with no headers.
\<close>

definition removeEmptyPort :: "string \<Rightarrow> string" where
  "removeEmptyPort host =
     (if host \<noteq> [] \<and> last host = CHR '':'' \<and> CHR '']'' \<notin> set host then butlast host else host)"

definition go_http_NewRequest :: "string \<Rightarrow> string \<Rightarrow> error + Request" where
  "go_http_NewRequest method url =
     (case go_url_Parse url of
        Inl err \<Rightarrow> Inl err
      | Inr u \<Rightarrow>
          Inr \<lparr>req_Method = method, req_URL = u\<lparr>Host := removeEmptyPort (Host u)\<rparr>,
               req_Header = Map.empty\<rparr>)"

text \<open>
  A network given by a table: the request for a URL in the table gets the status code
  and headers listed for it, at every position; any other request fails to connect.
\<close>

definition serve :: "(string \<times> int \<times> (string \<times> string) list) list \<Rightarrow> int \<Rightarrow> Request
    \<Rightarrow> error + Response" where
  "serve table n req =
     (case map_of table (go_URL_String (req_URL req)) of
        None \<Rightarrow> Inl (LibraryError False ''dial tcp: connect: connection refused'')
      | Some (code, headers) \<Rightarrow>
          Inr \<lparr>resp_StatusCode = code,
               resp_Header = map_of (map (\<lambda>(k, v). (k, [v])) headers)\<rparr>)"

definition go :: "(string \<times> int \<times> (string \<times> string) list) list \<Rightarrow> golib" where
  "go table =
     \<lparr>url_Parse = go_url_Parse, URL_String = go_URL_String, Query_Get = go_Query_Get,
      url_PathUnescape = go_PathUnescape, http_NewRequest = go_http_NewRequest,
      client_Do = serve table\<rparr>"

text \<open>
  A server on which a URL other than the seed redirects to itself: \<^verbatim>\<open>http://a/1\<close> answers
  302 with \<^verbatim>\<open>Location: /b\<close>, and \<^verbatim>\<open>http://a/b\<close> answers 302 with \<^verbatim>\<open>Location: /b\<close>.
  \<open>second_visit\<close> is the state in which the resolution of \<^verbatim>\<open>http://a/1\<close> on this server
  starts its third iteration, after two iterations that both continued.
\<close>

definition self_redirect_server :: golib where
  "self_redirect_server =
     go [(''http://a/1'', 302, [(''Location'', ''/b'')]),
         (''http://a/b'', 302, [(''Location'', ''/b'')])]"

definition second_visit :: "unit state" where
  "second_visit =
     projr (iteration go_trace self_redirect_server
       (projr (iteration go_trace self_redirect_server (initial ''http://a/1''))))"

subsection \<open>C8: the clean URL\<close>

lemma strings_HasPrefix_single:
  "strings_HasPrefix (c # cs) [d] = (c = d)"
  by (simp add: strings_HasPrefix_def)

lemma strings_Split_acc_nonempty: "strings_Split_acc acc s sep \<noteq> []"
  by (induction acc s sep rule: strings_Split_acc.induct) auto

lemma strings_Split_acc_hd_char:
  "hd (strings_Split_acc acc s [d]) = acc @ takeWhile (\<lambda>c. c \<noteq> d) s"
  by (induction acc s "[d]" rule: strings_Split_acc.induct)
     (auto simp: strings_HasPrefix_single)

lemma strings_Split_acc_length_char:
  "(length (strings_Split_acc acc s [d]) > 1) = (d \<in> set s)"
proof (induction acc s "[d]" rule: strings_Split_acc.induct)
  case (1 acc)
  show ?case by simp
next
  case (2 acc c cs)
  show ?case
  proof (cases "c = d")
    case True
    have "strings_Split_acc [] cs [d] \<noteq> []" by (rule strings_Split_acc_nonempty)
    then have "length (strings_Split_acc [] cs [d]) > 0" by simp
    with True show ?thesis by (simp add: strings_HasPrefix_single)
  next
    case False
    with 2 show ?thesis by (auto simp: strings_HasPrefix_single)
  qed
qed

lemma takeWhile_neq_absent: "d \<notin> set s \<Longrightarrow> takeWhile (\<lambda>c. c \<noteq> d) s = s"
  by (induction s) auto

lemma takeWhile_neq_first: "d \<notin> set a \<Longrightarrow> takeWhile (\<lambda>c. c \<noteq> d) (a @ d # b) = a"
  by (induction a) auto

lemma makeCleanURL_takeWhile:
  "makeCleanURL u = takeWhile (\<lambda>c. c \<noteq> CHR ''?'') u"
proof (cases "CHR ''?'' \<in> set u")
  case True
  then have len: "length (strings_Split_acc [] u ''?'') > 1"
    using strings_Split_acc_length_char [of "[]" u "CHR ''?''"] by blast
  then obtain p ps where ps: "strings_Split_acc [] u ''?'' = p # ps"
    by (cases "strings_Split_acc [] u ''?''") auto
  have "hd (strings_Split_acc [] u ''?'') = takeWhile (\<lambda>c. c \<noteq> CHR ''?'') u"
    by (simp add: strings_Split_acc_hd_char)
  with ps have "p = takeWhile (\<lambda>c. c \<noteq> CHR ''?'') u" by simp
  with len ps show ?thesis by (simp add: makeCleanURL_def strings_Split_def)
next
  case False
  then have "\<not> length (strings_Split_acc [] u ''?'') > 1"
    using strings_Split_acc_length_char [of "[]" u "CHR ''?''"] by blast
  with False show ?thesis
    by (simp add: makeCleanURL_def strings_Split_def takeWhile_neq_absent)
qed

text \<open>
  Claim C8. The clean-URL derivation is idempotent: cleaning a cleaned URL changes
  nothing. Cleaning returns the part of its input before the first question mark
  (the longest prefix without one), and so the input itself when it holds none.
\<close>

theorem makeCleanURL_idempotent:
  "makeCleanURL (makeCleanURL u) = makeCleanURL u
   \<and> makeCleanURL u = takeWhile (\<lambda>c. c \<noteq> CHR ''?'') u
   \<and> (CHR ''?'' \<notin> set u \<longrightarrow> makeCleanURL u = u)
   \<and> (\<forall>a b. u = a @ CHR ''?'' # b \<and> CHR ''?'' \<notin> set a \<longrightarrow> makeCleanURL u = a)"
proof -
  have tw: "\<And>v. makeCleanURL v = takeWhile (\<lambda>c. c \<noteq> CHR ''?'') v"
    by (rule makeCleanURL_takeWhile)
  have "takeWhile (\<lambda>c. c \<noteq> CHR ''?'') (takeWhile (\<lambda>c. c \<noteq> CHR ''?'') u)
        = takeWhile (\<lambda>c. c \<noteq> CHR ''?'') u"
    by simp
  then have idem: "makeCleanURL (makeCleanURL u) = makeCleanURL u"
    by (simp add: tw)
  have none: "CHR ''?'' \<notin> set u \<longrightarrow> makeCleanURL u = u"
    by (simp add: tw takeWhile_neq_absent)
  have first: "\<forall>a b. u = a @ CHR ''?'' # b \<and> CHR ''?'' \<notin> set a \<longrightarrow> makeCleanURL u = a"
    by (auto simp: tw takeWhile_neq_first)
  from idem tw none first show ?thesis by blast
qed

theorem makeCleanURL_idempotent_witness:
  "makeCleanURL (makeCleanURL ''http://a/b?x=1?y'') = makeCleanURL ''http://a/b?x=1?y''
   \<and> makeCleanURL ''http://a/b?x=1?y'' = ''http://a/b''
   \<and> makeCleanURL ''http://a/b'' = ''http://a/b''"
proof -
  have "CHR ''?'' \<notin> set ''http://a/b''" by simp
  then show ?thesis
    using makeCleanURL_idempotent [of "''http://a/b?x=1?y''"]
          makeCleanURL_idempotent [of "''http://a/b''"]
    by simp
qed

subsection \<open>The loop, one iteration at a time\<close>

text \<open>
  The loop returns what an iteration returns, and goes on from the state an iteration
  continues with.
\<close>

lemma loop_return:
  "iteration ext lib s = Inl r \<Longrightarrow> followRedirects_loop ext lib s = Some r"
  by (subst followRedirects_loop.simps) simp

lemma loop_continue:
  "iteration ext lib s = Inr s' \<Longrightarrow> followRedirects_loop ext lib s = followRedirects_loop ext lib s'"
  by (subst followRedirects_loop.simps) simp

text \<open>The paths through one iteration.\<close>

lemma iteration_loop_detected:
  "visits (visitedURLs s) (urlStr s) > 1 \<Longrightarrow>
   iteration ext lib s =
     Inl (Return (urlStr s)
            (Some (hops s @ [mkHop ext (number s) (urlStr s) StatusLoopDetected]))
            (cloudflareStatus s) None)"
  by (simp add: iteration_def)

lemma iteration_final:
  assumes "\<not> visits (visitedURLs s) (urlStr s) > 1"
    and "http_NewRequest lib ''GET'' (urlStr s) = Inr req"
    and "client_Do lib (number s) (setUserAgent req) = Inr resp"
    and "\<not> (resp_StatusCode resp \<ge> 300 \<and> resp_StatusCode resp \<le> 399)"
  shows "iteration ext lib s =
     Inl (Return (urlStr s)
            (Some (hops s @ [mkHop ext (number s) (urlStr s) (resp_StatusCode resp)]))
            (cloudflareStatus s) None)"
  using assms by (auto simp: iteration_def Let_def)

lemma iteration_redirect:
  assumes "\<not> visits (visitedURLs s) (urlStr s) > 1"
    and "http_NewRequest lib ''GET'' (urlStr s) = Inr req"
    and "client_Do lib (number s) (setUserAgent req) = Inr resp"
    and "resp_StatusCode resp \<ge> 300 \<and> resp_StatusCode resp \<le> 399"
  shows "iteration ext lib s =
     redirect ext lib
       (s\<lparr>visitedURLs := (visitedURLs s)(urlStr s \<mapsto> visits (visitedURLs s) (urlStr s) + 1),
          hops := hops s @ [mkHop ext (number s) (urlStr s) (resp_StatusCode resp)]\<rparr>)
       (setUserAgent req) resp"
  using assms by (simp add: iteration_def Let_def)

lemma HasPrefix_Nil: "strings_HasPrefix [] (c # cs) = False"
  by (simp add: strings_HasPrefix_def)

lemma redirect_no_location:
  "Header_Get (resp_Header resp) ''Location'' = [] \<Longrightarrow>
   redirect ext lib s req resp =
     Inl (Return [] (Some [])
            (cloudflareStatus s \<or> strings_Contains (Header_Get (resp_Header resp) ''Server'') ''cloudflare'')
            None)"
  by (simp add: redirect_def)

lemma redirect_outlook:
  "strings_HasPrefix (Header_Get (resp_Header resp) ''Location'') ''https://outlook.office365.com'' \<Longrightarrow>
   redirect ext lib s req resp =
     Inl (Return (Header_Get (resp_Header resp) ''Location'')
            (Some (hops s @ [mkHop ext (number s + 2) (Header_Get (resp_Header resp) ''Location'') StatusOK]))
            (cloudflareStatus s) None)"
  by (cases "Header_Get (resp_Header resp) ''Location''")
     (simp_all add: redirect_def HasPrefix_Nil Let_def)

lemma redirect_next:
  "Header_Get (resp_Header resp) ''Location'' \<noteq> [] \<Longrightarrow>
   \<not> strings_HasPrefix (Header_Get (resp_Header resp) ''Location'') ''https://outlook.office365.com'' \<Longrightarrow>
   nextURL lib (previousURL s) (Header_Get (resp_Header resp) ''Location'') (req_URL req) = Inr (v, p) \<Longrightarrow>
   redirect ext lib s req resp =
     Inr (s\<lparr>urlStr := v, number := number s + 1, previousURL := Some p\<rparr>)"
  by (simp add: redirect_def)

lemma redirect_error:
  "redirect ext lib s req resp = Inl (Return f h c (Some e)) \<Longrightarrow>
   f = [] \<and> h = None \<and>
   (\<exists>l. nextURL lib (previousURL s) l (req_URL req) = Inl e)"
  by (auto simp: redirect_def Let_def split: if_splits sum.splits prod.splits)

lemma iteration_error:
  "iteration ext lib s = Inl (Return f h c (Some e)) \<Longrightarrow> f = [] \<and> h = None"
  by (auto simp: iteration_def Let_def doTimeout_def doValidationError_def
           split: if_splits sum.splits dest: redirect_error)

text \<open>Whatever the loop returns was returned by one of its iterations.\<close>

lemma loop_result_from_iteration:
  assumes "followRedirects_loop ext lib s = Some r"
  shows "\<exists>s'. iteration ext lib s' = Inl r"
proof (rule followRedirects_loop.raw_induct
         [where P = "\<lambda>ext lib s r. \<exists>s'. iteration ext lib s' = Inl r", OF _ assms])
  fix loop :: "(int \<Rightarrow> 'a) \<Rightarrow> golib \<Rightarrow> 'a state \<Rightarrow> 'a outcome option"
    and ext lib s r
  assume IH: "\<And>ext lib s r. loop ext lib s = Some r \<Longrightarrow> \<exists>s'. iteration ext lib s' = Inl r"
    and step: "(case iteration ext lib s of Inl result \<Rightarrow> Some result
               | Inr s' \<Rightarrow> loop ext lib s') = Some r"
  show "\<exists>s'. iteration ext lib s' = Inl r"
  proof (cases "iteration ext lib s")
    case (Inl r')
    with step show ?thesis by auto
  next
    case (Inr s')
    with step have "loop ext lib s' = Some r" by simp
    then show ?thesis by (rule IH)
  qed
qed

text \<open>The errors an iteration returns are the six the program wraps.\<close>

lemma wrapped_hd: "wrapped (fmt_Errorf p e0) (p # ps)"
  by (simp add: wrapped_def)

lemma wrapped_tl: "wrapped e ps \<Longrightarrow> wrapped e (p # ps)"
  by (cases e) (simp_all add: wrapped_def)

lemma unwrapParameters_error:
  assumes "unwrapParameters lib u str = Inl e"
  shows "wrapped e [''error decoding returnUri: '', ''error decoding redir param: '']"
proof (cases "Query_Get lib u ''returnUri'' = []")
  case True
  with assms show ?thesis
    by (cases "url_PathUnescape lib (Query_Get lib u ''redir'')")
       (auto simp: unwrapParameters_def Let_def intro: wrapped_hd wrapped_tl split: if_splits)
next
  case False
  show ?thesis
  proof (cases "url_PathUnescape lib (Query_Get lib u ''returnUri'')")
    case (Inl e1)
    with False assms show ?thesis
      by (auto simp: unwrapParameters_def Let_def intro: wrapped_hd)
  next
    case (Inr d1)
    with False assms show ?thesis
      by (cases "url_PathUnescape lib (Query_Get lib u ''redir'')")
         (auto simp: unwrapParameters_def Let_def intro: wrapped_hd wrapped_tl split: if_splits)
  qed
qed

lemma nextURL_error:
  assumes "nextURL lib prev loc requrl = Inl e"
  shows "wrapped e [''error handling relative redirect: '', ''error parsing URL: '',
                    ''error decoding returnUri: '', ''error decoding redir param: '']"
proof (cases "handleRelativeRedirect lib prev loc (Some requrl)")
  case (Inl e1)
  with assms show ?thesis by (auto simp: nextURL_def intro: wrapped_hd)
next
  case (Inr r)
  show ?thesis
  proof (cases "url_Parse lib (URL_String lib r)")
    case (Inl e1)
    with Inr assms show ?thesis
      by (auto simp: nextURL_def Let_def intro: wrapped_hd wrapped_tl)
  next
    case u: (Inr u)
    show ?thesis
    proof (cases "unwrapParameters lib u (URL_String lib r)")
      case (Inl e1)
      with Inr u assms have "e = e1" by (simp add: nextURL_def Let_def)
      with Inl have "wrapped e [''error decoding returnUri: '', ''error decoding redir param: '']"
        by (simp add: unwrapParameters_error)
      then show ?thesis by (rule wrapped_tl [OF wrapped_tl])
    next
      case v: (Inr v)
      with Inr u assms show ?thesis
        by (cases "url_Parse lib v")
           (auto simp: nextURL_def Let_def intro: wrapped_hd wrapped_tl)
    qed
  qed
qed

lemma redirect_error_kind:
  assumes "redirect ext lib s req resp = Inl (Return f h c (Some e))"
  shows "wrapped e [''error handling relative redirect: '', ''error parsing URL: '',
                    ''error decoding returnUri: '', ''error decoding redir param: '']"
proof -
  from assms obtain l where "nextURL lib (previousURL s) l (req_URL req) = Inl e"
    by (blast dest: redirect_error)
  then show ?thesis by (rule nextURL_error)
qed

lemma iteration_error_kind:
  assumes "iteration ext lib s = Inl (Return f h c (Some e))"
  shows "wrapped e [''error creating request: '', ''error accessing URL: '',
                    ''error handling relative redirect: '', ''error parsing URL: '',
                    ''error decoding returnUri: '', ''error decoding redir param: '']"
proof (cases "visits (visitedURLs s) (urlStr s) > 1")
  case True
  with assms show ?thesis by (simp add: iteration_def Let_def)
next
  case False
  show ?thesis
  proof (cases "http_NewRequest lib ''GET'' (urlStr s)")
    case (Inl e1)
    with False assms show ?thesis
      by (auto simp: iteration_def Let_def intro: wrapped_hd)
  next
    case (Inr req)
    show ?thesis
    proof (cases "client_Do lib (number s) (setUserAgent req)")
      case (Inl e1)
      with False Inr assms show ?thesis
        by (auto simp: iteration_def Let_def doTimeout_def doValidationError_def
                 intro: wrapped_hd wrapped_tl split: if_splits)
    next
      case resp: (Inr resp)
      show ?thesis
      proof (cases "resp_StatusCode resp \<ge> 300 \<and> resp_StatusCode resp \<le> 399")
        case True
        from iteration_redirect [OF False Inr resp True, of ext] assms
        have "redirect ext lib
                (s\<lparr>visitedURLs := (visitedURLs s)(urlStr s \<mapsto> visits (visitedURLs s) (urlStr s) + 1),
                   hops := hops s @ [mkHop ext (number s) (urlStr s) (resp_StatusCode resp)]\<rparr>)
                (setUserAgent req) resp = Inl (Return f h c (Some e))"
          by simp
        then have "wrapped e [''error handling relative redirect: '', ''error parsing URL: '',
                    ''error decoding returnUri: '', ''error decoding redir param: '']"
          by (rule redirect_error_kind)
        then show ?thesis by (rule wrapped_tl [OF wrapped_tl])
      next
        case F: False
        from iteration_final [OF False Inr resp F, of ext] assms show ?thesis by simp
      qed
    qed
  qed
qed

subsection \<open>Facts about chains and ledgers\<close>

lemma redirect_chain_length:
  "redirect_chain lib n prev us codes \<Longrightarrow> length codes = length us"
proof (induction us arbitrary: n prev codes)
  case Nil
  then show ?case by simp
next
  case (Cons u us)
  then obtain c cs where codes: "codes = c # cs" by (cases codes) auto
  show ?case
  proof (cases us)
    case Nil
    with Cons.prems codes show ?thesis by (auto split: sum.splits)
  next
    case (Cons v vs)
    with Cons.prems codes obtain p where "redirect_chain lib (n + 1) (Some p) us cs"
      by (auto split: sum.splits)
    then have "length cs = length us" by (rule Cons.IH)
    with codes show ?thesis by simp
  qed
qed

lemma ledger_length:
  "length codes = length us \<Longrightarrow> length (ledger ext n us codes) = length us"
  by (induction ext n us codes rule: ledger.induct) auto

lemma ledger_nth:
  "length codes = length us \<Longrightarrow> i < length us \<Longrightarrow>
   ledger ext n us codes ! i = mkHop ext (n + int i) (us ! i) (codes ! i)"
proof (induction ext n us codes arbitrary: i rule: ledger.induct)
  case (1 ext n u us c cs)
  then show ?case by (cases i) (auto simp: algebra_simps)
qed auto

lemma visits_update_other:
  "w \<noteq> u \<Longrightarrow> visits (m(u \<mapsto> k)) w = visits m w"
  by (simp add: visits_def)

text \<open>
  A chain is followed to its end from any state that stands at its first URL and has
  asked for none of its URLs more than once: by induction on the chain, the state
  generalised.  The URLs are distinct, so counting the visit of one leaves the counts of
  the others alone.
\<close>

lemma chain_run:
  assumes "redirect_chain lib n prev us codes"
    and "distinct us"
    and "urlStr s = hd us" and "number s = n" and "previousURL s = prev"
    and "\<forall>u\<in>set us. visits (visitedURLs s) u \<le> 1"
  shows "followRedirects_loop ext lib s =
           Some (Return (last us) (Some (hops s @ ledger ext n us codes)) (cloudflareStatus s) None)"
  using assms
proof (induction us arbitrary: s n prev codes)
  case Nil
  then show ?case by simp
next
  case (Cons u us)
  from Cons.prems(1) obtain c cs where codes: "codes = c # cs" by (cases codes) auto
  from Cons.prems(3) have url: "urlStr s = u" by simp
  from Cons.prems(6) url have fresh: "\<not> visits (visitedURLs s) (urlStr s) > 1" by simp
  from Cons.prems(1) codes obtain req resp where
      req: "http_NewRequest lib ''GET'' u = Inr req"
    and resp: "client_Do lib n (setUserAgent req) = Inr resp"
    and c: "c = resp_StatusCode resp"
    by (auto split: sum.splits)
  from req resp url Cons.prems(4)
  have req': "http_NewRequest lib ''GET'' (urlStr s) = Inr req"
    and resp': "client_Do lib (number s) (setUserAgent req) = Inr resp"
    by simp_all
  show ?case
  proof (cases us)
    case Nil
    with Cons.prems(1) codes req resp c have "cs = []" and "\<not> (c \<ge> 300 \<and> c \<le> 399)"
      by auto
    with c have "\<not> (resp_StatusCode resp \<ge> 300 \<and> resp_StatusCode resp \<le> 399)"
      by simp
    from iteration_final [OF fresh req' resp' this, of ext] url Cons.prems(4) c
    have "iteration ext lib s =
        Inl (Return u (Some (hops s @ [mkHop ext n u c])) (cloudflareStatus s) None)"
      by simp
    then have "followRedirects_loop ext lib s =
        Some (Return u (Some (hops s @ [mkHop ext n u c])) (cloudflareStatus s) None)"
      by (rule loop_return)
    with Nil codes \<open>cs = []\<close> show ?thesis by simp
  next
    case (Cons v vs)
    let ?loc = "Header_Get (resp_Header resp) ''Location''"
    from Cons Cons.prems(1) codes req resp c obtain p where
        red: "c \<ge> 300 \<and> c \<le> 399"
      and loc: "?loc \<noteq> []"
      and nopre: "\<not> strings_HasPrefix ?loc ''https://outlook.office365.com''"
      and nxt: "nextURL lib prev ?loc (req_URL req) = Inr (v, p)"
      and rest: "redirect_chain lib (n + 1) (Some p) us cs"
      by (auto split: sum.splits)
    let ?s1 = "s\<lparr>visitedURLs := (visitedURLs s)(u \<mapsto> visits (visitedURLs s) u + 1),
                  hops := hops s @ [mkHop ext n u (resp_StatusCode resp)]\<rparr>"
    let ?s2 = "?s1\<lparr>urlStr := v, number := number ?s1 + 1, previousURL := Some p\<rparr>"
    have "redirect ext lib ?s1 (setUserAgent req) resp = Inr ?s2"
      using loc nopre nxt Cons.prems(5)
      by (intro redirect_next) (simp_all add: setUserAgent_def)
    moreover from red c
    have "resp_StatusCode resp \<ge> 300 \<and> resp_StatusCode resp \<le> 399" by simp
    from iteration_redirect [OF fresh req' resp' this, of ext] url Cons.prems(4)
    have "iteration ext lib s = redirect ext lib ?s1 (setUserAgent req) resp" by simp
    ultimately have "iteration ext lib s = Inr ?s2" by simp
    then have step: "followRedirects_loop ext lib s = followRedirects_loop ext lib ?s2"
      by (rule loop_continue)
    from Cons.prems(2) have d: "distinct us" and notin: "u \<notin> set us" by simp_all
    have vis: "\<forall>w\<in>set us. visits (visitedURLs ?s2) w \<le> 1"
    proof
      fix w assume w: "w \<in> set us"
      with notin have "w \<noteq> u" by auto
      then have "visits (visitedURLs ?s2) w = visits (visitedURLs s) w"
        by (simp add: visits_update_other)
      with Cons.prems(6) w show "visits (visitedURLs ?s2) w \<le> 1" by simp
    qed
    have "followRedirects_loop ext lib ?s2 =
            Some (Return (last us) (Some (hops ?s2 @ ledger ext (n + 1) us cs))
                    (cloudflareStatus ?s2) None)"
      using rest d _ _ _ vis
      by (rule Cons.IH) (simp_all add: Cons Cons.prems(4))
    with step codes c Cons show ?thesis by simp
  qed
qed

subsection \<open>The resolver, once the location is parsed\<close>

lemma handleRelativeRedirect_parsed:
  assumes "url_Parse lib location = Inr r"
  shows "handleRelativeRedirect lib prev location request =
     (case prev of
        Some p \<Rightarrow> Inr (r\<lparr>Scheme := (if Scheme r = [] then Scheme p else Scheme r),
                        Host := (if Host r = [] then Host p else Host r)\<rparr>)
      | None \<Rightarrow>
          (case request of
             Some q \<Rightarrow> Inr (r\<lparr>Scheme := (if Scheme r = [] then Scheme q else Scheme r),
                             Host := (if Host r = [] then Host q else Host r)\<rparr>)
           | None \<Rightarrow>
               if Scheme r = [] then Inl MissingScheme
               else if Host r = [] then Inl MissingHost
               else Inr r))"
  using assms
  by (simp add: handleRelativeRedirect_def MissingScheme_def MissingHost_def
           split: option.splits)

lemma Missing_distinct: "MissingScheme \<noteq> MissingHost"
  by (simp add: MissingScheme_def MissingHost_def)

subsection \<open>C1: both parameters present\<close>

text \<open>
  Claim C1 says that with both \<^verbatim>\<open>returnUri\<close> and \<^verbatim>\<open>redir\<close> present only the \<^verbatim>\<open>returnUri\<close>
  rewrite is applied. The code does the opposite. Claim C1, as the code has it: for every
  redirect target whose query holds both \<^verbatim>\<open>returnUri\<close> and \<^verbatim>\<open>redir\<close> with non-empty values
  that both percent-decode, the result is scheme, \<^verbatim>\<open>://\<close>, host and path followed by a
  query that consists solely of \<^verbatim>\<open>redir\<close> holding its decoded value (with \<^verbatim>\<open>%3A\<close> and
  \<^verbatim>\<open>%2F\<close> replaced): the \<^verbatim>\<open>returnUri\<close> rewrite is computed first and then overwritten,
  the last match wins.
\<close>

theorem unwrap_both_redir_wins:
  assumes "Query_Get lib u ''returnUri'' \<noteq> []"
    and "Query_Get lib u ''redir'' \<noteq> []"
    and "url_PathUnescape lib (Query_Get lib u ''returnUri'') = Inr d1"
    and "url_PathUnescape lib (Query_Get lib u ''redir'') = Inr d2"
  shows "unwrapParameters lib u s =
           Inr (Scheme u @ ''://'' @ Host u @ Path u @ ''?redir=''
                @ strings_ReplaceAll (strings_ReplaceAll d2 ''%3A'' '':'') ''%2F'' ''/'')"
  using assms by (simp add: unwrapParameters_def Let_def)

text \<open>
  The theorem at \<^verbatim>\<open>https://x/r?returnUri=%2Fhome&redir=https%25253A%2F%2Fy%2Fz\<close>: the query
  gives \<^verbatim>\<open>redir\<close> the value \<^verbatim>\<open>https%253A//y/z\<close>, unescaping it gives \<^verbatim>\<open>https%3A//y/z\<close>, and
  the replacement gives \<^verbatim>\<open>https://y/z\<close>.
\<close>

theorem unwrap_both_redir_wins_witness:
  "Query_Get (go []) (emptyURL\<lparr>Scheme := ''https'', Host := ''x'', Path := ''/r'',
       RawQuery := ''returnUri=%2Fhome&redir=https%25253A%2F%2Fy%2Fz''\<rparr>) ''returnUri'' \<noteq> []
   \<and> Query_Get (go []) (emptyURL\<lparr>Scheme := ''https'', Host := ''x'', Path := ''/r'',
       RawQuery := ''returnUri=%2Fhome&redir=https%25253A%2F%2Fy%2Fz''\<rparr>) ''redir'' \<noteq> []
   \<and> unwrapParameters (go [])
        (emptyURL\<lparr>Scheme := ''https'', Host := ''x'', Path := ''/r'',
           RawQuery := ''returnUri=%2Fhome&redir=https%25253A%2F%2Fy%2Fz''\<rparr>)
        ''https://x/r?returnUri=%2Fhome&redir=https%25253A%2F%2Fy%2Fz''
       = Inr ''https://x/r?redir=https://y/z''"
proof -
  let ?u = "emptyURL\<lparr>Scheme := ''https'', Host := ''x'', Path := ''/r'',
       RawQuery := ''returnUri=%2Fhome&redir=https%25253A%2F%2Fy%2Fz''\<rparr>"
  have h1: "Query_Get (go []) ?u ''returnUri'' \<noteq> []" by code_simp
  have h2: "Query_Get (go []) ?u ''redir'' \<noteq> []" by code_simp
  have h3: "url_PathUnescape (go []) (Query_Get (go []) ?u ''returnUri'') = Inr ''/home''"
    by code_simp
  have h4: "url_PathUnescape (go []) (Query_Get (go []) ?u ''redir'') = Inr ''https%3A//y/z''"
    by code_simp
  have e: "strings_ReplaceAll (strings_ReplaceAll ''https%3A//y/z'' ''%3A'' '':'') ''%2F'' ''/''
             = ''https://y/z''"
    by code_simp
  from unwrap_both_redir_wins [OF h1 h2 h3 h4,
         of "''https://x/r?returnUri=%2Fhome&redir=https%25253A%2F%2Fy%2Fz''"] h1 h2 e
  show ?thesis by (simp add: emptyURL_def)
qed

text \<open>
  Claim C1 as stated fails at \<^verbatim>\<open>https://x/r?returnUri=a&redir=b\<close>: both parameters are
  there with non-empty values, and the result carries \<^verbatim>\<open>redir\<close>, not \<^verbatim>\<open>returnUri\<close>.
\<close>

theorem unwrap_both_counterexample:
  "go_url_Parse ''https://x/r?returnUri=a&redir=b''
     = Inr (emptyURL\<lparr>Scheme := ''https'', Host := ''x'', Path := ''/r'',
                      RawQuery := ''returnUri=a&redir=b''\<rparr>)
   \<and> go_Query_Get (emptyURL\<lparr>Scheme := ''https'', Host := ''x'', Path := ''/r'',
                      RawQuery := ''returnUri=a&redir=b''\<rparr>) ''returnUri'' = ''a''
   \<and> go_Query_Get (emptyURL\<lparr>Scheme := ''https'', Host := ''x'', Path := ''/r'',
                      RawQuery := ''returnUri=a&redir=b''\<rparr>) ''redir'' = ''b''
   \<and> unwrapParameters (go [])
        (emptyURL\<lparr>Scheme := ''https'', Host := ''x'', Path := ''/r'',
                   RawQuery := ''returnUri=a&redir=b''\<rparr>)
        ''https://x/r?returnUri=a&redir=b''
       = Inr ''https://x/r?redir=b''"
  by code_simp

subsection \<open>C2: the repeated visit\<close>

text \<open>
  Claim C2. In every iteration that starts with a visit count of at least 1 for the
  current URL, that is on a repeat visit, the loop appends one hop with the loop-detected
  status code 508 and returns the hops recorded so far, and the URL is not requested
  again. The code's own comment says the same of its test (\<^verbatim>\<open>Check if the URL has been
  visited before\<close>), and the seed, which is marked with 1 before the loop, is caught at
  its second visit. A URL met later is not: it starts at 0, its first visit leaves the
  count at 1, and the test \<^verbatim>\<open>visitedURLs[urlStr] > 1\<close> lets its second visit through. The
  theorem runs the code where the claim fails. On \<open>self_redirect_server\<close> the first two
  iterations continue; the third starts at \<^verbatim>\<open>http://a/b\<close>, visited once before, with the
  count 1; it does not return but requests \<^verbatim>\<open>http://a/b\<close> again, and the resolution ends
  with four hops, \<^verbatim>\<open>http://a/b\<close> requested twice and the loop reported at its third visit.
\<close>

theorem second_visit_requested_again:
  "\<not> isl (iteration go_trace self_redirect_server (initial ''http://a/1''))
   \<and> \<not> isl (iteration go_trace self_redirect_server
              (projr (iteration go_trace self_redirect_server (initial ''http://a/1''))))
   \<and> urlStr second_visit = ''http://a/b''
   \<and> map URL (hops second_visit) = [''http://a/1'', ''http://a/b'']
   \<and> visits (visitedURLs second_visit) (urlStr second_visit) = 1
   \<and> \<not> isl (iteration go_trace self_redirect_server second_visit)
   \<and> followRedirects go_trace self_redirect_server ''http://a/1''
       = Some (Return ''http://a/b''
                 (Some [\<lparr>Number = 1, URL = ''http://a/1'', StatusCode = 302\<rparr>,
                        \<lparr>Number = 2, URL = ''http://a/b'', StatusCode = 302\<rparr>,
                        \<lparr>Number = 3, URL = ''http://a/b'', StatusCode = 302\<rparr>,
                        \<lparr>Number = 4, URL = ''http://a/b'', StatusCode = 508\<rparr>])
                 False None)"
  by code_simp

subsection \<open>C3: a redirect without a location\<close>

text \<open>
  Claim C3 says that the final URL of this dead end is the current URL. The code returns
  the empty string. Claim C3, as the code has it: when the answer to the request of an
  iteration has a status code from 300 to 399 and no \<^verbatim>\<open>Location\<close> (or an empty one), the
  resolver returns a nil error, an empty non-nil hop list and the empty string as final
  URL; the Cloudflare flag it returns is true exactly when the \<^verbatim>\<open>Server\<close> header contains
  \<^verbatim>\<open>cloudflare\<close>. (The flag is false in every state of a resolution, since nothing sets it
  before this return; the theorem assumes so.)
\<close>

theorem redirect_without_location:
  assumes "\<not> visits (visitedURLs s) (urlStr s) > 1"
    and "http_NewRequest lib ''GET'' (urlStr s) = Inr req"
    and "client_Do lib (number s) (setUserAgent req) = Inr resp"
    and "resp_StatusCode resp \<ge> 300 \<and> resp_StatusCode resp \<le> 399"
    and "Header_Get (resp_Header resp) ''Location'' = []"
    and "\<not> cloudflareStatus s"
  shows "followRedirects_loop ext lib s =
           Some (Return [] (Some [])
                   (strings_Contains (Header_Get (resp_Header resp) ''Server'') ''cloudflare'')
                   None)"
proof -
  from iteration_redirect [OF assms(1-4), of ext] assms(5,6)
  have "iteration ext lib s =
          Inl (Return [] (Some [])
                 (strings_Contains (Header_Get (resp_Header resp) ''Server'') ''cloudflare'')
                 None)"
    by (simp add: redirect_no_location)
  then show ?thesis by (rule loop_return)
qed

text \<open>The theorem on a server that names Cloudflare and on one that does not.\<close>

theorem redirect_without_location_witness:
  "followRedirects_loop go_trace (go [(''http://a/1'', 302, [(''Server'', ''cloudflare'')])])
     (initial ''http://a/1'')
       = Some (Return [] (Some []) True None)
   \<and> followRedirects_loop go_trace (go [(''http://a/1'', 302, [(''Server'', ''nginx'')])])
     (initial ''http://a/1'')
       = Some (Return [] (Some []) False None)"
proof -
  let ?s = "initial ''http://a/1'' :: unit state"
  let ?cf = "go [(''http://a/1'', 302, [(''Server'', ''cloudflare'')])]"
  let ?ng = "go [(''http://a/1'', 302, [(''Server'', ''nginx'')])]"
  let ?req = "projr (go_http_NewRequest ''GET'' ''http://a/1'')"
  let ?r1 = "projr (client_Do ?cf 1 (setUserAgent ?req))"
  let ?r2 = "projr (client_Do ?ng 1 (setUserAgent ?req))"
  have fresh: "\<not> visits (visitedURLs ?s) (urlStr ?s) > 1" by code_simp
  have "\<not> isl (go_http_NewRequest ''GET'' ''http://a/1'')" by code_simp
  then have req: "go_http_NewRequest ''GET'' ''http://a/1'' = Inr ?req" by simp
  have req1: "http_NewRequest ?cf ''GET'' (urlStr ?s) = Inr ?req"
    and req2: "http_NewRequest ?ng ''GET'' (urlStr ?s) = Inr ?req"
    using req by (simp_all add: go_def initial_def)
  have "\<not> isl (client_Do ?cf 1 (setUserAgent ?req))" by code_simp
  then have resp1: "client_Do ?cf (number ?s) (setUserAgent ?req) = Inr ?r1"
    by (simp add: initial_def)
  have "\<not> isl (client_Do ?ng 1 (setUserAgent ?req))" by code_simp
  then have resp2: "client_Do ?ng (number ?s) (setUserAgent ?req) = Inr ?r2"
    by (simp add: initial_def)
  have code1: "resp_StatusCode ?r1 \<ge> 300 \<and> resp_StatusCode ?r1 \<le> 399" by code_simp
  have code2: "resp_StatusCode ?r2 \<ge> 300 \<and> resp_StatusCode ?r2 \<le> 399" by code_simp
  have loc1: "Header_Get (resp_Header ?r1) ''Location'' = []" by code_simp
  have loc2: "Header_Get (resp_Header ?r2) ''Location'' = []" by code_simp
  have cf: "\<not> cloudflareStatus ?s" by (simp add: initial_def)
  have s1: "strings_Contains (Header_Get (resp_Header ?r1) ''Server'') ''cloudflare'' = True"
    by code_simp
  have s2: "strings_Contains (Header_Get (resp_Header ?r2) ''Server'') ''cloudflare'' = False"
    by code_simp
  from redirect_without_location [OF fresh req1 resp1 code1 loc1 cf, of go_trace]
       redirect_without_location [OF fresh req2 resp2 code2 loc2 cf, of go_trace]
  show ?thesis by (simp only: s1 s2)
qed

text \<open>
  Claim C3 as stated fails for \<^verbatim>\<open>http://a/1\<close> answered with 302, \<^verbatim>\<open>Server: nginx\<close> and no
  location: the final URL is empty, not \<^verbatim>\<open>http://a/1\<close>.
\<close>

theorem redirect_without_location_counterexample:
  "followRedirects go_trace (go [(''http://a/1'', 302, [(''Server'', ''nginx'')])]) ''http://a/1''
     = Some (Return [] (Some []) False None)
   \<and> ''http://a/1'' \<noteq> []"
  by code_simp

subsection \<open>C4: a chain without repetition\<close>

text \<open>
  Claim C4. For every redirect chain of \<open>N\<close> URLs in which no URL repeats and no location
  begins with the Outlook prefix, ending in a status code that is not a redirect, the
  resolver returns: exactly \<open>N\<close> hops; hop \<open>i\<close> has the number \<open>i\<close> (counted from 1), the
  URL requested at step \<open>i\<close> and the status code answered; the final URL is the last URL of
  the chain, which is the URL of the last hop; the error is nil and the flag false.
\<close>

theorem chain_hops:
  assumes "redirect_chain lib 1 None us codes" and "distinct us"
  shows "followRedirects ext lib (hd us)
           = Some (Return (last us) (Some (ledger ext 1 us codes)) False None)
         \<and> length (ledger ext 1 us codes) = length us
         \<and> (\<forall>i < length us. Number (ledger ext 1 us codes ! i) = int i + 1
                             \<and> URL (ledger ext 1 us codes ! i) = us ! i
                             \<and> StatusCode (ledger ext 1 us codes ! i) = codes ! i)
         \<and> URL (last (ledger ext 1 us codes)) = last us"
proof -
  from assms(1) have len: "length codes = length us" by (rule redirect_chain_length)
  from assms(1) have ne: "us \<noteq> []" by auto
  have "followRedirects_loop ext lib (initial (hd us)) =
          Some (Return (last us) (Some (hops (initial (hd us)) @ ledger ext 1 us codes))
                  (cloudflareStatus (initial (hd us) :: 'a state)) None)"
    using assms
    by (rule chain_run) (simp_all add: initial_def visits_def)
  then have run: "followRedirects ext lib (hd us)
           = Some (Return (last us) (Some (ledger ext 1 us codes)) False None)"
    by (simp add: followRedirects_def initial_def)
  have l: "length (ledger ext 1 us codes) = length us" using len by (rule ledger_length)
  have nth: "\<forall>i < length us. Number (ledger ext 1 us codes ! i) = int i + 1
                             \<and> URL (ledger ext 1 us codes ! i) = us ! i
                             \<and> StatusCode (ledger ext 1 us codes ! i) = codes ! i"
    using len by (simp add: ledger_nth mkHop_def)
  from ne l have "ledger ext 1 us codes \<noteq> []" by auto
  then have "last (ledger ext 1 us codes) = ledger ext 1 us codes ! (length us - 1)"
    by (simp add: last_conv_nth l)
  with nth ne have "URL (last (ledger ext 1 us codes)) = last us"
    by (simp add: last_conv_nth)
  with run l nth show ?thesis by blast
qed

text \<open>The theorem on a chain of three URLs, the first redirect relative.\<close>

theorem chain_hops_witness:
  "redirect_chain (go [(''http://a/1'', 302, [(''Location'', ''/b'')]),
                       (''http://a/b'', 301, [(''Location'', ''https://c.example/d?x=1'')]),
                       (''https://c.example/d?x=1'', 200, [])])
     1 None [''http://a/1'', ''http://a/b'', ''https://c.example/d?x=1''] [302, 301, 200]
   \<and> distinct [''http://a/1'', ''http://a/b'', ''https://c.example/d?x=1'']
   \<and> followRedirects go_trace
         (go [(''http://a/1'', 302, [(''Location'', ''/b'')]),
              (''http://a/b'', 301, [(''Location'', ''https://c.example/d?x=1'')]),
              (''https://c.example/d?x=1'', 200, [])])
         ''http://a/1''
       = Some (Return ''https://c.example/d?x=1''
                 (Some [\<lparr>Number = 1, URL = ''http://a/1'', StatusCode = 302\<rparr>,
                        \<lparr>Number = 2, URL = ''http://a/b'', StatusCode = 301\<rparr>,
                        \<lparr>Number = 3, URL = ''https://c.example/d?x=1'', StatusCode = 200\<rparr>])
                 False None)"
proof -
  have c: "redirect_chain (go [(''http://a/1'', 302, [(''Location'', ''/b'')]),
                       (''http://a/b'', 301, [(''Location'', ''https://c.example/d?x=1'')]),
                       (''https://c.example/d?x=1'', 200, [])])
     1 None [''http://a/1'', ''http://a/b'', ''https://c.example/d?x=1''] [302, 301, 200]"
    by code_simp
  have d: "distinct [''http://a/1'', ''http://a/b'', ''https://c.example/d?x=1'']"
    by simp
  from chain_hops [OF c d, of go_trace] c d show ?thesis
    by (simp add: mkHop_def go_trace_def)
qed

subsection \<open>C5: the Outlook shortcut\<close>

text \<open>
  Claim C5. When the answer to the request of an iteration is a redirect whose location
  begins with \<^verbatim>\<open>https://outlook.office365.com\<close>, the resolver appends, after the hop of
  the request, one hop whose number is the current number plus 2, whose status code is
  200 and whose URL is the location as it stands, and returns with a nil error and the
  location as final URL.
\<close>

theorem outlook_shortcut:
  assumes "\<not> visits (visitedURLs s) (urlStr s) > 1"
    and "http_NewRequest lib ''GET'' (urlStr s) = Inr req"
    and "client_Do lib (number s) (setUserAgent req) = Inr resp"
    and "resp_StatusCode resp \<ge> 300 \<and> resp_StatusCode resp \<le> 399"
    and "strings_HasPrefix (Header_Get (resp_Header resp) ''Location'')
           ''https://outlook.office365.com''"
  shows "followRedirects_loop ext lib s =
           Some (Return (Header_Get (resp_Header resp) ''Location'')
                   (Some (hops s @
                      [\<lparr>Number = number s, URL = urlStr s,
                        StatusCode = resp_StatusCode resp, \<dots> = ext (resp_StatusCode resp)\<rparr>,
                       \<lparr>Number = number s + 2, URL = Header_Get (resp_Header resp) ''Location'',
                        StatusCode = 200, \<dots> = ext 200\<rparr>]))
                   (cloudflareStatus s) None)"
proof -
  from iteration_redirect [OF assms(1-4), of ext] assms(5)
  have "iteration ext lib s =
          Inl (Return (Header_Get (resp_Header resp) ''Location'')
                 (Some (hops s @
                    [mkHop ext (number s) (urlStr s) (resp_StatusCode resp),
                     mkHop ext (number s + 2) (Header_Get (resp_Header resp) ''Location'') StatusOK]))
                 (cloudflareStatus s) None)"
    by (simp add: redirect_outlook)
  then have "followRedirects_loop ext lib s =
          Some (Return (Header_Get (resp_Header resp) ''Location'')
                 (Some (hops s @
                    [mkHop ext (number s) (urlStr s) (resp_StatusCode resp),
                     mkHop ext (number s + 2) (Header_Get (resp_Header resp) ''Location'') StatusOK]))
                 (cloudflareStatus s) None)"
    by (rule loop_return)
  then show ?thesis by (simp add: mkHop_def StatusOK_def)
qed

theorem outlook_shortcut_witness:
  "followRedirects_loop go_trace
     (go [(''http://a/1'', 302, [(''Location'', ''https://outlook.office365.com/owa/?realm=x'')])])
     (initial ''http://a/1'')
   = Some (Return ''https://outlook.office365.com/owa/?realm=x''
             (Some [\<lparr>Number = 1, URL = ''http://a/1'', StatusCode = 302\<rparr>,
                    \<lparr>Number = 3, URL = ''https://outlook.office365.com/owa/?realm=x'',
                     StatusCode = 200\<rparr>])
             False None)"
proof -
  let ?s = "initial ''http://a/1'' :: unit state"
  let ?lib = "go [(''http://a/1'', 302, [(''Location'', ''https://outlook.office365.com/owa/?realm=x'')])]"
  let ?req = "projr (go_http_NewRequest ''GET'' ''http://a/1'')"
  let ?resp = "projr (client_Do ?lib 1 (setUserAgent ?req))"
  have fresh: "\<not> visits (visitedURLs ?s) (urlStr ?s) > 1" by code_simp
  have "\<not> isl (go_http_NewRequest ''GET'' ''http://a/1'')" by code_simp
  then have req: "http_NewRequest ?lib ''GET'' (urlStr ?s) = Inr ?req"
    by (simp add: go_def initial_def)
  have "\<not> isl (client_Do ?lib 1 (setUserAgent ?req))" by code_simp
  then have resp: "client_Do ?lib (number ?s) (setUserAgent ?req) = Inr ?resp"
    by (simp add: initial_def)
  have code: "resp_StatusCode ?resp \<ge> 300 \<and> resp_StatusCode ?resp \<le> 399" by code_simp
  have loc: "Header_Get (resp_Header ?resp) ''Location''
               = ''https://outlook.office365.com/owa/?realm=x''"
    by code_simp
  have pre: "strings_HasPrefix (Header_Get (resp_Header ?resp) ''Location'')
               ''https://outlook.office365.com''"
    by code_simp
  have c: "resp_StatusCode ?resp = 302" by code_simp
  from outlook_shortcut [OF fresh req resp code pre, of go_trace]
  show ?thesis by (simp only: loc c) (simp add: initial_def go_trace_def)
qed

subsection \<open>C6: the seed redirects to itself\<close>

text \<open>
  Claim C6 holds for every seed but those the Outlook shortcut catches. Claim C6, as the
  code has it: for every seed URL \<open>x\<close> whose request is answered by a redirect with a
  location that does not begin with \<^verbatim>\<open>https://outlook.office365.com\<close> and from which the
  program (resolution, then parameter unwrapping) comes back to \<open>x\<close>, the resolution ends
  with a nil error, the final URL \<open>x\<close> and exactly two hops: hop 1 with \<open>x\<close> and the
  status code of the redirect, hop 2 with \<open>x\<close> and 508.
\<close>

theorem self_loop_detected:
  assumes "http_NewRequest lib ''GET'' x = Inr req"
    and "client_Do lib 1 (setUserAgent req) = Inr resp"
    and "resp_StatusCode resp \<ge> 300 \<and> resp_StatusCode resp \<le> 399"
    and "Header_Get (resp_Header resp) ''Location'' \<noteq> []"
    and "\<not> strings_HasPrefix (Header_Get (resp_Header resp) ''Location'')
             ''https://outlook.office365.com''"
    and "nextURL lib None (Header_Get (resp_Header resp) ''Location'') (req_URL req) = Inr (x, p)"
  shows "followRedirects ext lib x =
           Some (Return x
                   (Some [\<lparr>Number = 1, URL = x, StatusCode = resp_StatusCode resp,
                           \<dots> = ext (resp_StatusCode resp)\<rparr>,
                          \<lparr>Number = 2, URL = x, StatusCode = 508, \<dots> = ext 508\<rparr>])
                   False None)"
proof -
  let ?s0 = "initial x :: 'a state"
  let ?s1 = "?s0\<lparr>visitedURLs := (visitedURLs ?s0)(urlStr ?s0 \<mapsto> visits (visitedURLs ?s0) (urlStr ?s0) + 1),
                  hops := hops ?s0 @ [mkHop ext (number ?s0) (urlStr ?s0) (resp_StatusCode resp)]\<rparr>"
  let ?s2 = "?s1\<lparr>urlStr := x, number := number ?s1 + 1, previousURL := Some p\<rparr>"
  have fresh: "\<not> visits (visitedURLs ?s0) (urlStr ?s0) > 1"
    by (simp add: initial_def visits_def)
  have req: "http_NewRequest lib ''GET'' (urlStr ?s0) = Inr req"
    using assms(1) by (simp add: initial_def)
  have resp: "client_Do lib (number ?s0) (setUserAgent req) = Inr resp"
    using assms(2) by (simp add: initial_def)
  have "redirect ext lib ?s1 (setUserAgent req) resp = Inr ?s2"
    using assms(4,5,6)
    by (intro redirect_next) (simp_all add: setUserAgent_def initial_def)
  with iteration_redirect [OF fresh req resp assms(3), of ext]
  have "iteration ext lib ?s0 = Inr ?s2" by simp
  then have step: "followRedirects_loop ext lib ?s0 = followRedirects_loop ext lib ?s2"
    by (rule loop_continue)
  have "visits (visitedURLs ?s2) (urlStr ?s2) > 1"
    by (simp add: initial_def visits_def)
  then have "iteration ext lib ?s2 =
     Inl (Return (urlStr ?s2)
            (Some (hops ?s2 @ [mkHop ext (number ?s2) (urlStr ?s2) StatusLoopDetected]))
            (cloudflareStatus ?s2) None)"
    by (rule iteration_loop_detected)
  then have "followRedirects_loop ext lib ?s2 =
     Some (Return (urlStr ?s2)
            (Some (hops ?s2 @ [mkHop ext (number ?s2) (urlStr ?s2) StatusLoopDetected]))
            (cloudflareStatus ?s2) None)"
    by (rule loop_return)
  with step show ?thesis
    by (simp add: followRedirects_def initial_def mkHop_def StatusLoopDetected_def)
qed

text \<open>The theorem on \<^verbatim>\<open>http://a/1\<close> answered with 302 and \<^verbatim>\<open>Location: http://a/1\<close>.\<close>

theorem self_loop_detected_witness:
  "followRedirects go_trace (go [(''http://a/1'', 302, [(''Location'', ''http://a/1'')])])
     ''http://a/1''
   = Some (Return ''http://a/1''
             (Some [\<lparr>Number = 1, URL = ''http://a/1'', StatusCode = 302\<rparr>,
                    \<lparr>Number = 2, URL = ''http://a/1'', StatusCode = 508\<rparr>])
             False None)"
proof -
  let ?lib = "go [(''http://a/1'', 302, [(''Location'', ''http://a/1'')])]"
  let ?req = "projr (go_http_NewRequest ''GET'' ''http://a/1'')"
  let ?resp = "projr (client_Do ?lib 1 (setUserAgent ?req))"
  let ?p = "snd (projr (nextURL ?lib None ''http://a/1'' (req_URL ?req)))"
  have "\<not> isl (go_http_NewRequest ''GET'' ''http://a/1'')" by code_simp
  then have req: "http_NewRequest ?lib ''GET'' ''http://a/1'' = Inr ?req"
    by (simp add: go_def)
  have "\<not> isl (client_Do ?lib 1 (setUserAgent ?req))" by code_simp
  then have resp: "client_Do ?lib 1 (setUserAgent ?req) = Inr ?resp" by simp
  have code: "resp_StatusCode ?resp \<ge> 300 \<and> resp_StatusCode ?resp \<le> 399" by code_simp
  have loc: "Header_Get (resp_Header ?resp) ''Location'' = ''http://a/1''" by code_simp
  have ne: "Header_Get (resp_Header ?resp) ''Location'' \<noteq> []" by (simp only: loc) simp
  have pre: "\<not> strings_HasPrefix (Header_Get (resp_Header ?resp) ''Location'')
               ''https://outlook.office365.com''"
    by code_simp
  have "\<not> isl (nextURL ?lib None ''http://a/1'' (req_URL ?req))" by code_simp
  moreover have "fst (projr (nextURL ?lib None ''http://a/1'' (req_URL ?req))) = ''http://a/1''"
    by code_simp
  ultimately have "nextURL ?lib None ''http://a/1'' (req_URL ?req) = Inr (''http://a/1'', ?p)"
    by (cases "nextURL ?lib None ''http://a/1'' (req_URL ?req)") auto
  then have nxt: "nextURL ?lib None (Header_Get (resp_Header ?resp) ''Location'') (req_URL ?req)
                    = Inr (''http://a/1'', ?p)"
    by (simp only: loc)
  have c: "resp_StatusCode ?resp = 302" by code_simp
  from self_loop_detected [OF req resp code ne pre nxt, of go_trace]
  show ?thesis by (simp only: c) (simp add: go_trace_def)
qed

text \<open>
  Claim C6 as stated fails for the seed \<^verbatim>\<open>https://outlook.office365.com/owa\<close> answered with
  302 and itself as location: the shortcut ends the resolution with a second hop
  numbered 3 and status 200, and no loop is reported. The location does lead back to the
  seed: that is what \<open>nextURL\<close> computes from it.
\<close>

theorem self_loop_outlook_counterexample:
  "followRedirects go_trace
     (go [(''https://outlook.office365.com/owa'', 302,
           [(''Location'', ''https://outlook.office365.com/owa'')])])
     ''https://outlook.office365.com/owa''
   = Some (Return ''https://outlook.office365.com/owa''
             (Some [\<lparr>Number = 1, URL = ''https://outlook.office365.com/owa'', StatusCode = 302\<rparr>,
                    \<lparr>Number = 3, URL = ''https://outlook.office365.com/owa'', StatusCode = 200\<rparr>])
             False None)
   \<and> (case nextURL (go []) None ''https://outlook.office365.com/owa''
               (emptyURL\<lparr>Scheme := ''https'', Host := ''outlook.office365.com'',
                          Path := ''/owa''\<rparr>) of
         Inl err \<Rightarrow> []
       | Inr (v, p) \<Rightarrow> v)
       = ''https://outlook.office365.com/owa''"
  by code_simp

subsection \<open>C7: what the resolver inherits\<close>

text \<open>
  Claim C7. For every location that parses as a URL reference \<open>r\<close>: a missing scheme is
  taken from the previous URL when there is one, otherwise from the request URL, and the
  call fails with the missing-scheme error exactly when the scheme is missing and there is
  neither; a missing host likewise, from the same source, and the call fails with the
  missing-host error exactly when the scheme step passed without a source (the location
  has a scheme), the host is missing and there is neither. A source is there when the
  pointer is not nil. Everything else of the location, path, query and fragment among
  it, is returned as parsed.
\<close>

theorem handleRelativeRedirect_inherits:
  assumes "url_Parse lib location = Inr r"
  shows "(\<forall>p. prev = Some p \<longrightarrow>
            handleRelativeRedirect lib prev location request =
              Inr (r\<lparr>Scheme := (if Scheme r = [] then Scheme p else Scheme r),
                      Host := (if Host r = [] then Host p else Host r)\<rparr>))
       \<and> (\<forall>q. prev = None \<and> request = Some q \<longrightarrow>
            handleRelativeRedirect lib prev location request =
              Inr (r\<lparr>Scheme := (if Scheme r = [] then Scheme q else Scheme r),
                      Host := (if Host r = [] then Host q else Host r)\<rparr>))
       \<and> (handleRelativeRedirect lib prev location request = Inl MissingScheme
            \<longleftrightarrow> Scheme r = [] \<and> prev = None \<and> request = None)
       \<and> (handleRelativeRedirect lib prev location request = Inl MissingHost
            \<longleftrightarrow> Scheme r \<noteq> [] \<and> Host r = [] \<and> prev = None \<and> request = None)
       \<and> (prev = None \<and> request = None \<and> Scheme r \<noteq> [] \<and> Host r \<noteq> [] \<longrightarrow>
            handleRelativeRedirect lib prev location request = Inr r)
       \<and> (\<forall>u. handleRelativeRedirect lib prev location request = Inr u \<longrightarrow>
              Path u = Path r \<and> RawQuery u = RawQuery r \<and> Fragment u = Fragment r
              \<and> u = r\<lparr>Scheme := Scheme u, Host := Host u\<rparr>)"
  using Missing_distinct
  by (auto simp: handleRelativeRedirect_parsed [OF assms] split: option.splits)

text \<open>
  The theorem at the location \<^verbatim>\<open>/path?q=1#top\<close>: after \<^verbatim>\<open>http://a.example/x\<close>, with no
  previous URL and the request \<^verbatim>\<open>https://b.example/y\<close>, and with neither.
\<close>

theorem handleRelativeRedirect_inherits_witness:
  "url_Parse (go []) ''/path?q=1#top'' = Inr (emptyURL\<lparr>Path := ''/path'', RawQuery := ''q=1'', Fragment := ''top''\<rparr>)
   \<and> handleRelativeRedirect (go [])
        (Some (emptyURL\<lparr>Scheme := ''http'', Host := ''a.example'', Path := ''/x''\<rparr>))
        ''/path?q=1#top''
        (Some (emptyURL\<lparr>Scheme := ''https'', Host := ''b.example'', Path := ''/y''\<rparr>))
       = Inr (emptyURL\<lparr>Scheme := ''http'', Host := ''a.example'', Path := ''/path'',
                         RawQuery := ''q=1'', Fragment := ''top''\<rparr>)
   \<and> handleRelativeRedirect (go []) None ''/path?q=1#top''
        (Some (emptyURL\<lparr>Scheme := ''https'', Host := ''b.example'', Path := ''/y''\<rparr>))
       = Inr (emptyURL\<lparr>Scheme := ''https'', Host := ''b.example'', Path := ''/path'',
                         RawQuery := ''q=1'', Fragment := ''top''\<rparr>)
   \<and> handleRelativeRedirect (go []) None ''/path?q=1#top'' None = Inl MissingScheme"
proof -
  let ?r = "emptyURL\<lparr>Path := ''/path'', RawQuery := ''q=1'', Fragment := ''top''\<rparr>"
  let ?a = "emptyURL\<lparr>Scheme := ''http'', Host := ''a.example'', Path := ''/x''\<rparr>"
  let ?b = "emptyURL\<lparr>Scheme := ''https'', Host := ''b.example'', Path := ''/y''\<rparr>"
  have h: "url_Parse (go []) ''/path?q=1#top'' = Inr ?r" by code_simp
  from handleRelativeRedirect_inherits [OF h, of "Some ?a" "Some ?b"]
       handleRelativeRedirect_inherits [OF h, of None "Some ?b"]
       handleRelativeRedirect_inherits [OF h, of None None] h
  show ?thesis by (simp add: emptyURL_def)
qed

subsection \<open>C9: nil is the only missing source\<close>

text \<open>
  Claim C9. For a location that parses, the resolver fails with the missing-scheme or the
  missing-host error only when the previous URL and the request URL are both nil. When
  the previous URL is not nil, the result is the same for every request URL: the missing
  scheme and the missing host are copied from the previous URL even where they are empty
  there, and no error is raised, so that the URL returned can lack a scheme or a host.
\<close>

theorem handleRelativeRedirect_nil_only:
  assumes "url_Parse lib location = Inr r"
  shows "(handleRelativeRedirect lib prev location request = Inl MissingScheme
            \<longrightarrow> prev = None \<and> request = None)
       \<and> (handleRelativeRedirect lib prev location request = Inl MissingHost
            \<longrightarrow> prev = None \<and> request = None)
       \<and> (\<forall>p request'. prev = Some p \<longrightarrow>
            handleRelativeRedirect lib prev location request' =
              Inr (r\<lparr>Scheme := (if Scheme r = [] then Scheme p else Scheme r),
                      Host := (if Host r = [] then Host p else Host r)\<rparr>))
       \<and> (\<forall>p. prev = Some p \<and> Scheme r = [] \<and> Scheme p = [] \<longrightarrow>
            (\<exists>u. handleRelativeRedirect lib prev location request = Inr u \<and> Scheme u = []))
       \<and> (\<forall>p. prev = Some p \<and> Host r = [] \<and> Host p = [] \<longrightarrow>
            (\<exists>u. handleRelativeRedirect lib prev location request = Inr u \<and> Host u = []))"
  by (auto simp: handleRelativeRedirect_parsed [OF assms] split: option.splits)

text \<open>
  The theorem at the location \<^verbatim>\<open>/path\<close> after the relative URL \<^verbatim>\<open>x\<close>: the request URL
  has a scheme and a host, and the result has neither.
\<close>

theorem handleRelativeRedirect_nil_only_witness:
  "url_Parse (go []) ''/path'' = Inr (emptyURL\<lparr>Path := ''/path''\<rparr>)
   \<and> handleRelativeRedirect (go [])
        (Some (emptyURL\<lparr>Path := ''x''\<rparr>))
        ''/path''
        (Some (emptyURL\<lparr>Scheme := ''https'', Host := ''b.example'', Path := ''/y''\<rparr>))
       = Inr (emptyURL\<lparr>Path := ''/path''\<rparr>)
   \<and> Scheme (emptyURL\<lparr>Path := ''/path''\<rparr>) = []
   \<and> Host (emptyURL\<lparr>Path := ''/path''\<rparr>) = []"
proof -
  let ?r = "emptyURL\<lparr>Path := ''/path''\<rparr>"
  let ?a = "emptyURL\<lparr>Path := ''x''\<rparr>"
  let ?b = "emptyURL\<lparr>Scheme := ''https'', Host := ''b.example'', Path := ''/y''\<rparr>"
  have h: "url_Parse (go []) ''/path'' = Inr ?r" by code_simp
  from handleRelativeRedirect_nil_only [OF h, of "Some ?a" "Some ?b"] h
  show ?thesis by (simp add: emptyURL_def)
qed

subsection \<open>C10: an error carries no results\<close>

text \<open>
  Claim C10. Whenever the resolver returns an error that is not nil, the hop list it
  returns is nil and the final URL is the empty string, whatever hops were recorded
  before. The error is one of the six the program makes: for a request that cannot be
  built, a request that fails (other than by a timeout or an unknown certificate
  authority, which end the process), a relative redirect that cannot be resolved, a URL
  that does not parse, and a \<^verbatim>\<open>returnUri\<close> or \<^verbatim>\<open>redir\<close> value that cannot be unescaped.
\<close>

theorem error_returns_nothing:
  assumes "followRedirects ext lib url = Some (Return finalURL hs cf (Some err))"
  shows "finalURL = [] \<and> hs = None
         \<and> wrapped err [''error creating request: '', ''error accessing URL: '',
                         ''error handling relative redirect: '', ''error parsing URL: '',
                         ''error decoding returnUri: '', ''error decoding redir param: '']"
proof -
  from assms obtain s' where it: "iteration ext lib s' = Inl (Return finalURL hs cf (Some err))"
    unfolding followRedirects_def by (blast dest: loop_result_from_iteration)
  from it have "finalURL = [] \<and> hs = None" by (rule iteration_error)
  moreover from it
  have "wrapped err [''error creating request: '', ''error accessing URL: '',
                     ''error handling relative redirect: '', ''error parsing URL: '',
                     ''error decoding returnUri: '', ''error decoding redir param: '']"
    by (rule iteration_error_kind)
  ultimately show ?thesis by blast
qed

text \<open>
  The theorem on a resolution that records the hop of \<^verbatim>\<open>http://a/1\<close> and then fails to
  connect to \<^verbatim>\<open>http://a/b\<close>.
\<close>

theorem error_returns_nothing_witness:
  "followRedirects go_trace (go [(''http://a/1'', 302, [(''Location'', ''/b'')])]) ''http://a/1''
   = Some (Return [] None False
             (Some (fmt_Errorf ''error accessing URL: ''
                      (LibraryError False ''dial tcp: connect: connection refused''))))"
proof -
  have h: "followRedirects go_trace (go [(''http://a/1'', 302, [(''Location'', ''/b'')])]) ''http://a/1''
   = Some (Return [] None False
             (Some (fmt_Errorf ''error accessing URL: ''
                      (LibraryError False ''dial tcp: connect: connection refused''))))"
    by code_simp
  from error_returns_nothing [OF h] h show ?thesis by simp
qed


subsection \<open>Further properties of the resolver\<close>

text \<open>
  Status classification (\<^verbatim>\<open>getStatusCodeClass\<close>, url-tracer.go): a status code from 200 to
  599 is classified by its hundreds digit, any other code has the empty class.
\<close>

theorem getStatusCodeClass_hundreds:
  "getStatusCodeClass c =
     (if 200 \<le> c \<and> c < 600 then (''2345'' ! nat (c div 100 - 2)) # ''xx'' else [])"
proof -
  consider "c < 200" | "200 \<le> c \<and> c < 300" | "300 \<le> c \<and> c < 400"
    | "400 \<le> c \<and> c < 500" | "500 \<le> c \<and> c < 600" | "600 \<le> c"
    by linarith
  then show ?thesis
  proof cases
    case 1 then show ?thesis by (simp add: getStatusCodeClass_def)
  next
    case 2
    then have "c div 100 = 2" by linarith
    with 2 show ?thesis by (simp add: getStatusCodeClass_def)
  next
    case 3
    then have "c div 100 = 3" by linarith
    with 3 show ?thesis by (simp add: getStatusCodeClass_def)
  next
    case 4
    then have "c div 100 = 4" by linarith
    with 4 show ?thesis by (simp add: getStatusCodeClass_def)
  next
    case 5
    then have "c div 100 = 5" by linarith
    with 5 show ?thesis by (simp add: getStatusCodeClass_def)
  next
    case 6 then show ?thesis by (simp add: getStatusCodeClass_def)
  qed
qed

text \<open>
  A status code outside 300 to 399 ends the resolution: the hop of the request is
  appended, the final URL is the URL requested and the error is nil. This holds in every
  iteration that starts with a visit count of at most 1.
\<close>

theorem final_status_returns:
  assumes "\<not> visits (visitedURLs s) (urlStr s) > 1"
    and "http_NewRequest lib ''GET'' (urlStr s) = Inr req"
    and "client_Do lib (number s) (setUserAgent req) = Inr resp"
    and "\<not> (resp_StatusCode resp \<ge> 300 \<and> resp_StatusCode resp \<le> 399)"
  shows "followRedirects_loop ext lib s =
           Some (Return (urlStr s)
                   (Some (hops s @ [\<lparr>Number = number s, URL = urlStr s,
                                     StatusCode = resp_StatusCode resp,
                                     \<dots> = ext (resp_StatusCode resp)\<rparr>]))
                   (cloudflareStatus s) None)"
proof -
  from iteration_final [OF assms, of ext]
  have "followRedirects_loop ext lib s =
          Some (Return (urlStr s)
                  (Some (hops s @ [mkHop ext (number s) (urlStr s) (resp_StatusCode resp)]))
                  (cloudflareStatus s) None)"
    by (rule loop_return)
  then show ?thesis by (simp add: mkHop_def)
qed

theorem final_status_returns_witness:
  "followRedirects_loop url_tracer (go [(''http://a/1'', 404, [])]) (initial ''http://a/1'')
   = Some (Return ''http://a/1''
             (Some [\<lparr>Number = 1, URL = ''http://a/1'', StatusCode = 404,
                     StatusCodeClass = ''4xx''\<rparr>])
             False None)"
proof -
  let ?s = "initial ''http://a/1'' :: unit HopClass_ext state"
  let ?lib = "go [(''http://a/1'', 404, [])]"
  let ?req = "projr (go_http_NewRequest ''GET'' ''http://a/1'')"
  let ?resp = "projr (client_Do ?lib 1 (setUserAgent ?req))"
  have fresh: "\<not> visits (visitedURLs ?s) (urlStr ?s) > 1" by (simp add: initial_def visits_def)
  have "\<not> isl (go_http_NewRequest ''GET'' ''http://a/1'')" by code_simp
  then have req: "http_NewRequest ?lib ''GET'' (urlStr ?s) = Inr ?req"
    by (simp add: go_def initial_def)
  have "\<not> isl (client_Do ?lib 1 (setUserAgent ?req))" by code_simp
  then have resp: "client_Do ?lib (number ?s) (setUserAgent ?req) = Inr ?resp"
    by (simp add: initial_def)
  have c: "resp_StatusCode ?resp = 404" by code_simp
  then have code: "\<not> (resp_StatusCode ?resp \<ge> 300 \<and> resp_StatusCode ?resp \<le> 399)" by simp
  have cls: "url_tracer 404 = HopClass.fields ''4xx''" by code_simp
  from final_status_returns [OF fresh req resp code, of url_tracer]
  show ?thesis by (simp only: c cls) (simp add: initial_def HopClass.defs)
qed

text \<open>
  With \<^verbatim>\<open>returnUri\<close> alone, the query of the result consists solely of \<^verbatim>\<open>returnUri\<close> holding
  its decoded value; every other parameter is dropped.
\<close>

theorem unwrap_returnUri_only:
  assumes "Query_Get lib u ''returnUri'' \<noteq> []"
    and "url_PathUnescape lib (Query_Get lib u ''returnUri'') = Inr d"
    and "Query_Get lib u ''redir'' = []"
  shows "unwrapParameters lib u s =
           Inr (Scheme u @ ''://'' @ Host u @ Path u @ ''?returnUri=''
                @ strings_ReplaceAll (strings_ReplaceAll d ''%3A'' '':'') ''%2F'' ''/'')"
  using assms by (simp add: unwrapParameters_def Let_def)

theorem unwrap_returnUri_only_witness:
  "unwrapParameters (go [])
     (emptyURL\<lparr>Scheme := ''https'', Host := ''x'', Path := ''/r'',
         RawQuery := ''returnUri=%2Fhome%3Fid%3D1&utm=z''\<rparr>)
     ''https://x/r?returnUri=%2Fhome%3Fid%3D1&utm=z''
   = Inr ''https://x/r?returnUri=/home?id=1''"
proof -
  let ?u = "emptyURL\<lparr>Scheme := ''https'', Host := ''x'', Path := ''/r'',
         RawQuery := ''returnUri=%2Fhome%3Fid%3D1&utm=z''\<rparr>"
  have h1: "Query_Get (go []) ?u ''returnUri'' \<noteq> []" by code_simp
  have h2: "url_PathUnescape (go []) (Query_Get (go []) ?u ''returnUri'') = Inr ''/home?id=1''"
    by code_simp
  have h3: "Query_Get (go []) ?u ''redir'' = []" by code_simp
  have e: "strings_ReplaceAll (strings_ReplaceAll ''/home?id=1'' ''%3A'' '':'') ''%2F'' ''/''
             = ''/home?id=1''"
    by code_simp
  from unwrap_returnUri_only [OF h1 h2 h3, of "''https://x/r?returnUri=%2Fhome%3Fid%3D1&utm=z''"] e
  show ?thesis by (simp add: emptyURL_def)
qed

text \<open>With neither parameter the redirect target passes through unchanged.\<close>

theorem unwrap_neither_unchanged:
  assumes "Query_Get lib u ''returnUri'' = []" and "Query_Get lib u ''redir'' = []"
  shows "unwrapParameters lib u s = Inr s"
  using assms by (simp add: unwrapParameters_def Let_def)

theorem unwrap_neither_unchanged_witness:
  "unwrapParameters (go [])
     (emptyURL\<lparr>Scheme := ''https'', Host := ''x'', Path := ''/r'', RawQuery := ''a=1&b=2''\<rparr>)
     ''https://x/r?a=1&b=2''
   = Inr ''https://x/r?a=1&b=2''"
proof -
  let ?u = "emptyURL\<lparr>Scheme := ''https'', Host := ''x'', Path := ''/r'', RawQuery := ''a=1&b=2''\<rparr>"
  have h1: "Query_Get (go []) ?u ''returnUri'' = []" by code_simp
  have h2: "Query_Get (go []) ?u ''redir'' = []" by code_simp
  from unwrap_neither_unchanged [OF h1 h2] show ?thesis .
qed

text \<open>
  An iteration that starts with a visit count above 1 for the current URL makes no
  request: it appends one hop with the current number, the current URL and the status
  code 508 and returns the current URL and the hops with a nil error, whatever the
  library and the network are.
\<close>

theorem loop_detected:
  assumes "visits (visitedURLs s) (urlStr s) > 1"
  shows "followRedirects_loop ext lib s =
           Some (Return (urlStr s)
                   (Some (hops s @ [\<lparr>Number = number s, URL = urlStr s, StatusCode = 508, \<dots> = ext 508\<rparr>]))
                   (cloudflareStatus s) None)
         \<and> followRedirects_loop ext lib' s = followRedirects_loop ext lib s"
  using assms by (simp add: loop_return iteration_loop_detected mkHop_def StatusLoopDetected_def)

text \<open>At the state a self-redirect of the seed \<^verbatim>\<open>http://a/1\<close> leads to:\<close>

theorem loop_detected_witness:
  "visits (visitedURLs \<lparr>urlStr = ''http://a/1'',
             hops = [\<lparr>Number = 1, URL = ''http://a/1'', StatusCode = 302\<rparr>],
             number = 2,
             previousURL = Some (emptyURL\<lparr>Scheme := ''http'', Host := ''a'', Path := ''/1''\<rparr>),
             visitedURLs = [''http://a/1'' \<mapsto> 2],
             cloudflareStatus = False\<rparr>) ''http://a/1'' > 1
   \<and> followRedirects_loop go_trace (go [])
         \<lparr>urlStr = ''http://a/1'',
          hops = [\<lparr>Number = 1, URL = ''http://a/1'', StatusCode = 302\<rparr>],
          number = 2,
             previousURL = Some (emptyURL\<lparr>Scheme := ''http'', Host := ''a'', Path := ''/1''\<rparr>),
             visitedURLs = [''http://a/1'' \<mapsto> 2],
          cloudflareStatus = False\<rparr>
       = Some (Return ''http://a/1''
                 (Some [\<lparr>Number = 1, URL = ''http://a/1'', StatusCode = 302\<rparr>,
                        \<lparr>Number = 2, URL = ''http://a/1'', StatusCode = 508\<rparr>])
                 False None)"
proof -
  let ?s = "\<lparr>urlStr = ''http://a/1'',
             hops = [\<lparr>Number = 1, URL = ''http://a/1'', StatusCode = 302\<rparr>],
             number = 2,
             previousURL = Some (emptyURL\<lparr>Scheme := ''http'', Host := ''a'', Path := ''/1''\<rparr>),
             visitedURLs = [''http://a/1'' \<mapsto> 2],
             cloudflareStatus = False\<rparr> :: unit state"
  have h: "visits (visitedURLs ?s) (urlStr ?s) > 1" by (simp add: visits_def)
  from loop_detected [OF h, of go_trace "go []" "go []"] h show ?thesis
    by (simp add: go_trace_def)
qed

text \<open>
  Only the seed starts with a visit count of 1. A URL met later starts at 0, so its second
  visit finds the count 1 and is requested again; the loop is reported at its third
  visit. On the cycle \<^verbatim>\<open>/b\<close>, \<^verbatim>\<open>/c\<close> reached from \<^verbatim>\<open>http://a/1\<close>:
\<close>

theorem later_url_requested_twice:
  "followRedirects go_trace
     (go [(''http://a/1'', 302, [(''Location'', ''/b'')]),
          (''http://a/b'', 302, [(''Location'', ''/c'')]),
          (''http://a/c'', 302, [(''Location'', ''/b'')])])
     ''http://a/1''
   = Some (Return ''http://a/b''
             (Some [\<lparr>Number = 1, URL = ''http://a/1'', StatusCode = 302\<rparr>,
                    \<lparr>Number = 2, URL = ''http://a/b'', StatusCode = 302\<rparr>,
                    \<lparr>Number = 3, URL = ''http://a/c'', StatusCode = 302\<rparr>,
                    \<lparr>Number = 4, URL = ''http://a/b'', StatusCode = 302\<rparr>,
                    \<lparr>Number = 5, URL = ''http://a/c'', StatusCode = 302\<rparr>,
                    \<lparr>Number = 6, URL = ''http://a/b'', StatusCode = 508\<rparr>])
             False None)"
  by code_simp

text \<open>
  A request that fails ends the process when the failure is a timeout or an unknown
  certificate authority, and otherwise returns the wrapped error with no results.
\<close>

theorem timeout_exits:
  assumes "\<not> visits (visitedURLs s) (urlStr s) > 1"
    and "http_NewRequest lib ''GET'' (urlStr s) = Inr req"
    and "client_Do lib (number s) (setUserAgent req) = Inl err"
  shows "followRedirects_loop ext lib s =
           Some (if isURLTimeout err then Exit ''Timeout error'' 1
                 else if strings_Contains (Error err) ''x509: certificate signed by unknown authority''
                 then Exit ''Validation error'' 1
                 else Return [] None (cloudflareStatus s)
                        (Some (fmt_Errorf ''error accessing URL: '' err)))"
proof -
  from assms have "iteration ext lib s =
           Inl (if isURLTimeout err then Exit ''Timeout error'' 1
                 else if strings_Contains (Error err) ''x509: certificate signed by unknown authority''
                 then Exit ''Validation error'' 1
                 else Return [] None (cloudflareStatus s)
                        (Some (fmt_Errorf ''error accessing URL: '' err)))"
    by (simp add: iteration_def Let_def doTimeout_def doValidationError_def)
  then show ?thesis by (rule loop_return)
qed

theorem timeout_exits_witness:
  "followRedirects_loop go_trace
     ((go [])\<lparr>client_Do := \<lambda>n req. Inl (LibraryError True
         ''context deadline exceeded (Client.Timeout exceeded while awaiting headers)'')\<rparr>)
     (initial ''http://a/1'')
   = Some (Exit ''Timeout error'' 1)"
proof -
  let ?s = "initial ''http://a/1'' :: unit state"
  let ?e = "LibraryError True
         ''context deadline exceeded (Client.Timeout exceeded while awaiting headers)''"
  let ?lib = "(go [])\<lparr>client_Do := \<lambda>n req. Inl ?e\<rparr>"
  let ?req = "projr (go_http_NewRequest ''GET'' ''http://a/1'')"
  have fresh: "\<not> visits (visitedURLs ?s) (urlStr ?s) > 1" by (simp add: initial_def visits_def)
  have "\<not> isl (go_http_NewRequest ''GET'' ''http://a/1'')" by code_simp
  then have req: "http_NewRequest ?lib ''GET'' (urlStr ?s) = Inr ?req"
    by (simp add: go_def initial_def)
  have resp: "client_Do ?lib (number ?s) (setUserAgent ?req) = Inl ?e" by simp
  from timeout_exits [OF fresh req resp, of go_trace] show ?thesis by simp
qed

end
